theory Spec2Isabelle
  imports Complex_Main "HOL-Library.Sublist"
begin

section \<open>Tables of weather observations\<close>

text \<open>
  The cleaning module works on pandas data frames. A frame is modelled by its list of
  column names and its rows; every row carries its index label and one cell per column,
  in column order. All missing values of pandas (None, NaN, NaT) are the one cell
  \<open>NA\<close>: they are the values for which \<open>pd.isna\<close> holds, and
  \<open>DataFrame.duplicated\<close> gives them the same code within a column.
  Floats are modelled by the rational numbers they denote; rounding to binary64 and the
  two infinities are outside the model. A timestamp is year, month, day, hour and minute
  (no date format of the model has seconds).
\<close>

datatype cell =
    NA
  | Str string
  | Integer int
  | Float rat
  | Timestamp nat nat nat nat nat

text \<open>
  The exceptions of the code, and \<open>NotModelled\<close> for an input on which the model does
  not follow pandas: nothing is claimed about the code there.
\<close>

datatype error = KeyError | ValueError | TypeError | NotModelled

type_synonym row = "int \<times> cell list"

record table =
  columns :: "string list"
  rows :: "row list"

text \<open>
  The model covers frames whose column names are distinct and whose rows have one cell
  per column.
\<close>

definition wf_table :: "table \<Rightarrow> bool" where
  "wf_table t \<longleftrightarrow>
     distinct (columns t) \<and> list_all (\<lambda>r. length (snd r) = length (columns t)) (rows t)"

text \<open>The cell of a row under a column name.\<close>

definition cell_of :: "table \<Rightarrow> row \<Rightarrow> string \<Rightarrow> cell option" where
  "cell_of t r name = map_of (zip (columns t) (snd r)) name"

definition isna :: "cell \<Rightarrow> bool" where
  "isna c \<longleftrightarrow> c = NA"

subsection \<open>Exceptions\<close>

definition bind_err :: "error + 'a \<Rightarrow> ('a \<Rightarrow> error + 'b) \<Rightarrow> error + 'b" where
  "bind_err m f = (case m of Inl e \<Rightarrow> Inl e | Inr x \<Rightarrow> f x)"

fun mapM :: "('a \<Rightarrow> error + 'b) \<Rightarrow> 'a list \<Rightarrow> error + 'b list" where
  "mapM f [] = Inr []"
| "mapM f (x # xs) =
     (case f x of
        Inl e \<Rightarrow> Inl e
      | Inr y \<Rightarrow> (case mapM f xs of Inl e \<Rightarrow> Inl e | Inr ys \<Rightarrow> Inr (y # ys)))"

subsection \<open>Frame primitives\<close>

fun index_of :: "'a \<Rightarrow> 'a list \<Rightarrow> nat option" where
  "index_of x [] = None"
| "index_of x (y # ys) =
     (if x = y then Some 0 else map_option Suc (index_of x ys))"

text \<open>\<open>df[name]\<close>: the column as a series, KeyError when there is none.\<close>

definition getitem :: "table \<Rightarrow> string \<Rightarrow> error + cell list" where
  "getitem t name =
     (case index_of name (columns t) of
        None \<Rightarrow> Inl KeyError
      | Some i \<Rightarrow> Inr (map (\<lambda>r. snd r ! i) (rows t)))"

text \<open>\<open>df[mask]\<close>: the rows at which the boolean series holds, labels kept.\<close>

definition boolean_index :: "table \<Rightarrow> bool list \<Rightarrow> table" where
  "boolean_index t bs = t\<lparr>rows := map fst (filter snd (zip (rows t) bs))\<rparr>"

subsection \<open>Outlier detector\<close>

text \<open>
  A comparison of a series with an integer constant. NaN compares false; a string or a
  timestamp cannot be compared with a number.
\<close>

fun cell_lt :: "cell \<Rightarrow> int \<Rightarrow> error + bool" where
  "cell_lt NA k = Inr False"
| "cell_lt (Integer n) k = Inr (n < k)"
| "cell_lt (Float q) k = Inr (q < of_int k)"
| "cell_lt (Str s) k = Inl TypeError"
| "cell_lt (Timestamp y m d H M) k = Inl TypeError"

fun cell_gt :: "cell \<Rightarrow> int \<Rightarrow> error + bool" where
  "cell_gt NA k = Inr False"
| "cell_gt (Integer n) k = Inr (n > k)"
| "cell_gt (Float q) k = Inr (q > of_int k)"
| "cell_gt (Str s) k = Inl TypeError"
| "cell_gt (Timestamp y m d H M) k = Inl TypeError"

definition series_lt :: "cell list \<Rightarrow> int \<Rightarrow> error + bool list" where
  "series_lt xs k = mapM (\<lambda>c. cell_lt c k) xs"

definition series_gt :: "cell list \<Rightarrow> int \<Rightarrow> error + bool list" where
  "series_gt xs k = mapM (\<lambda>c. cell_gt c k) xs"

definition series_or :: "bool list \<Rightarrow> bool list \<Rightarrow> bool list" where
  "series_or xs ys = map (\<lambda>(a, b). a \<or> b) (zip xs ys)"

definition detectar_outliers :: "table \<Rightarrow> error + table" where
  "detectar_outliers df =
     bind_err (getitem df ''temperature'') (\<lambda>t1.
     bind_err (series_lt t1 (- 10)) (\<lambda>m1.
     bind_err (getitem df ''temperature'') (\<lambda>t2.
     bind_err (series_gt t2 50) (\<lambda>m2.
     bind_err (getitem df ''humidity'') (\<lambda>h1.
     bind_err (series_lt h1 0) (\<lambda>m3.
     bind_err (getitem df ''humidity'') (\<lambda>h2.
     bind_err (series_gt h2 100) (\<lambda>m4.
     bind_err (getitem df ''wind_speed'') (\<lambda>w1.
     bind_err (series_lt w1 0) (\<lambda>m5.
       Inr (boolean_index df
         (series_or (series_or (series_or (series_or m1 m2) m3) m4) m5))))))))))))"

text \<open>
  The condition of the outlier detector read row by row, on the numbers the cells hold: a
  missing measurement holds no number.
\<close>

fun value_of :: "cell \<Rightarrow> rat option" where
  "value_of (Integer n) = Some (of_int n)"
| "value_of (Float q) = Some q"
| "value_of c = None"

definition is_numeric :: "cell \<Rightarrow> bool" where
  "is_numeric c \<longleftrightarrow> c = NA \<or> value_of c \<noteq> None"

definition cell_value :: "table \<Rightarrow> row \<Rightarrow> string \<Rightarrow> rat option" where
  "cell_value t r name = (case cell_of t r name of None \<Rightarrow> None | Some c \<Rightarrow> value_of c)"

definition value_below :: "rat option \<Rightarrow> rat \<Rightarrow> bool" where
  "value_below x k = (case x of None \<Rightarrow> False | Some v \<Rightarrow> v < k)"

definition value_above :: "rat option \<Rightarrow> rat \<Rightarrow> bool" where
  "value_above x k = (case x of None \<Rightarrow> False | Some v \<Rightarrow> k < v)"

definition outlier_row :: "table \<Rightarrow> row \<Rightarrow> bool" where
  "outlier_row t r \<longleftrightarrow>
     value_below (cell_value t r ''temperature'') (- 10) \<or>
     value_above (cell_value t r ''temperature'') 50 \<or>
     value_below (cell_value t r ''humidity'') 0 \<or>
     value_above (cell_value t r ''humidity'') 100 \<or>
     value_below (cell_value t r ''wind_speed'') 0"

definition numeric_column :: "table \<Rightarrow> string \<Rightarrow> bool" where
  "numeric_column t name \<longleftrightarrow>
     name \<in> set (columns t) \<and>
     list_all (\<lambda>r. case cell_of t r name of None \<Rightarrow> False | Some c \<Rightarrow> is_numeric c) (rows t)"

subsection \<open>Deduplicator\<close>

text \<open>
  \<open>DataFrame.duplicated()\<close> marks a row when an earlier row has the same values in every
  column (the index label does not count); \<open>drop_duplicates()\<close> keeps the unmarked rows.
  Both begin with \<open>if self.empty\<close>: a frame without rows or without columns has nothing
  marked and is returned as it is.

  Values are compared as pandas compares them: the integer 1 and the float 1.0 are the
  same value, and missing values are the same value. In a frame with a single column
  pandas keeps None and NaN apart; a column of the model holds one kind of missing value.
\<close>

definition frame_empty :: "table \<Rightarrow> bool" where
  "frame_empty t \<longleftrightarrow> rows t = [] \<or> columns t = []"

fun cell_key :: "cell \<Rightarrow> cell" where
  "cell_key (Integer n) = Float (of_int n)"
| "cell_key c = c"

definition row_key :: "row \<Rightarrow> cell list" where
  "row_key r = map cell_key (snd r)"

fun duplicated_from :: "cell list list \<Rightarrow> row list \<Rightarrow> bool list" where
  "duplicated_from seen [] = []"
| "duplicated_from seen (r # rs) =
     (row_key r \<in> set seen) # duplicated_from (row_key r # seen) rs"

definition duplicated :: "table \<Rightarrow> bool list" where
  "duplicated t = (if frame_empty t then [] else duplicated_from [] (rows t))"

definition drop_duplicates :: "table \<Rightarrow> table" where
  "drop_duplicates t =
     (if frame_empty t then t else boolean_index t (map Not (duplicated t)))"

definition series_sum :: "bool list \<Rightarrow> nat" where
  "series_sum bs = length (filter id bs)"

definition verificar_duplicados :: "table \<Rightarrow> table \<times> nat" where
  "verificar_duplicados df =
     (let df_result = df;
          duplicados = duplicated df_result
      in (drop_duplicates df_result, series_sum duplicados))"

subsection \<open>Column assignment, removal and renaming\<close>

text \<open>
  \<open>df[name] = series\<close>: an existing column is overwritten in place, a new one is added
  after the last column. Every series assigned in the module is computed from a column of
  the same frame, so it has one value per row, in row order.
\<close>

definition setitem :: "table \<Rightarrow> string \<Rightarrow> cell list \<Rightarrow> table" where
  "setitem t name vals =
     (case index_of name (columns t) of
        Some i \<Rightarrow> t\<lparr>rows := map (\<lambda>(r, v). (fst r, (snd r)[i := v])) (zip (rows t) vals)\<rparr>
      | None \<Rightarrow> \<lparr>columns = columns t @ [name],
                  rows = map (\<lambda>(r, v). (fst r, snd r @ [v])) (zip (rows t) vals)\<rparr>)"

text \<open>
  \<open>df.drop(names, axis=1)\<close>: KeyError when a name is not a column (pandas' default
  \<open>errors='raise'\<close>).
\<close>

definition drop_columns :: "table \<Rightarrow> string list \<Rightarrow> error + table" where
  "drop_columns t names =
     (if list_all (\<lambda>n. n \<in> set (columns t)) names
      then Inr \<lparr>columns = filter (\<lambda>c. c \<notin> set names) (columns t),
                rows = map (\<lambda>r. (fst r,
                   map snd (filter (\<lambda>(c, v). c \<notin> set names) (zip (columns t) (snd r)))))
                   (rows t)\<rparr>
      else Inl KeyError)"

text \<open>\<open>df.insert(0, name, series)\<close>: ValueError when the column exists already.\<close>

definition insert_first :: "table \<Rightarrow> string \<Rightarrow> cell list \<Rightarrow> error + table" where
  "insert_first t name vals =
     (if name \<in> set (columns t) then Inl ValueError
      else Inr \<lparr>columns = name # columns t,
                rows = map (\<lambda>(r, v). (fst r, v # snd r)) (zip (rows t) vals)\<rparr>)"

text \<open>\<open>Series.map(dict)\<close>: a value that is not a key of the dictionary gives NaN.\<close>

definition lookup_cell :: "(string \<times> cell) list \<Rightarrow> cell \<Rightarrow> cell" where
  "lookup_cell d c =
     (case c of
        Str k \<Rightarrow> (case map_of d k of Some v \<Rightarrow> v | None \<Rightarrow> NA)
      | _ \<Rightarrow> NA)"

definition series_map :: "(string \<times> cell) list \<Rightarrow> cell list \<Rightarrow> cell list" where
  "series_map d xs = map (lookup_cell d) xs"

text \<open>\<open>columns.str.lower()\<close>, on ASCII names.\<close>

definition lower_char :: "char \<Rightarrow> char" where
  "lower_char c =
     (case map_of (zip ''ABCDEFGHIJKLMNOPQRSTUVWXYZ'' ''abcdefghijklmnopqrstuvwxyz'') c of
        Some l \<Rightarrow> l
      | None \<Rightarrow> c)"

definition lower :: "string \<Rightarrow> string" where
  "lower s = map lower_char s"

text \<open>\<open>df.rename(columns=dict)\<close>: names that are not keys stay, keys without column are ignored.\<close>

definition rename_columns :: "table \<Rightarrow> (string \<times> string) list \<Rightarrow> table" where
  "rename_columns t d =
     t\<lparr>columns := map (\<lambda>c. case map_of d c of Some n \<Rightarrow> n | None \<Rightarrow> c) (columns t)\<rparr>"

subsection \<open>Field translators\<close>

definition wind_direction_completo :: "(string \<times> cell) list" where
  "wind_direction_completo =
     [(''N'', Str ''north''), (''NE'', Str ''northeast''), (''E'', Str ''east''),
      (''SE'', Str ''southeast''), (''S'', Str ''south''), (''SO'', Str ''southwest''),
      (''O'', Str ''west''), (''NO'', Str ''northwest''), (''C'', Str ''calm'')]"

text \<open>
  The degrees are floats: the dictionary holds \<open>np.nan\<close>, so \<open>Series.map\<close> looks
  the codes up in a float64 series.
\<close>

definition wind_direction_grados :: "(string \<times> cell) list" where
  "wind_direction_grados =
     [(''N'', Float 0), (''NE'', Float 45), (''E'', Float 90), (''SE'', Float 135),
      (''S'', Float 180), (''SO'', Float 225), (''O'', Float 270), (''NO'', Float 315),
      (''C'', NA)]"

definition traducir_direccion_viento :: "table \<Rightarrow> error + table" where
  "traducir_direccion_viento df =
     (let df_result = df in
      bind_err (getitem df ''wind_direction'') (\<lambda>w1.
      let df_result = setitem df_result ''wind_direction_completo''
                        (series_map wind_direction_completo w1) in
      bind_err (getitem df ''wind_direction'') (\<lambda>w2.
      let df_result = setitem df_result ''wind_direction_grados''
                        (series_map wind_direction_grados w2) in
      Inr df_result)))"

definition sky_condition_ingles :: "(string \<times> cell) list" where
  "sky_condition_ingles =
     [(''Nubes altas'', Str ''high clouds''),
      (''Cubierto'', Str ''overcast''),
      (''Poco nuboso'', Str ''few clouds''),
      (''Nuboso'', Str ''cloudy''),
      (''Muy nuboso'', Str ''very cloudy''),
      (''Despejado'', Str ''clear''),
      (''Cubierto con lluvia escasa'', Str ''overcast with light rain''),
      (''Cubierto con lluvia'', Str ''overcast with rain''),
      (''Cubierto con tormenta y lluvia escasa'',
         Str ''overcast with thunderstorm and light rain'')]"

definition traducir_condicion_cielo :: "table \<Rightarrow> error + table" where
  "traducir_condicion_cielo df =
     (let df_result = df in
      bind_err (getitem df ''sky_condition'') (\<lambda>s.
      let df_result = setitem df_result ''sky_condition_ingles''
                        (series_map sky_condition_ingles s) in
      Inr df_result))"

subsection \<open>Column pruner\<close>

definition eliminar_columnas_innecesarias :: "table \<Rightarrow> string list \<Rightarrow> error + table" where
  "eliminar_columnas_innecesarias df columnas_a_eliminar =
     (let df_result = df in drop_columns df_result columnas_a_eliminar)"

subsection \<open>Reading numbers\<close>

definition is_digit :: "char \<Rightarrow> bool" where
  "is_digit c \<longleftrightarrow> c \<in> set ''0123456789''"

definition digit_val :: "char \<Rightarrow> nat" where
  "digit_val c = (case index_of c ''0123456789'' of Some d \<Rightarrow> d | None \<Rightarrow> 0)"

definition digits_nat :: "string \<Rightarrow> nat" where
  "digits_nat s = foldl (\<lambda>a c. 10 * a + digit_val c) 0 s"

definition parse_nat :: "string \<Rightarrow> nat option" where
  "parse_nat s = (if s \<noteq> [] \<and> list_all is_digit s then Some (digits_nat s) else None)"

fun digits_of :: "nat \<Rightarrow> string" where
  "digits_of n =
     (if n < 10 then [''0123456789'' ! n]
      else digits_of (n div 10) @ [''0123456789'' ! (n mod 10)])"

declare digits_of.simps [simp del]

text \<open>
  Python's \<open>float(s)\<close> on a string, which is what \<open>astype(float)\<close> applies to the cells of
  an object column: blanks around the number, a sign, digits with an optional fraction,
  an optional exponent; \<open>nan\<close> in any case. Anything else is a ValueError. Digit
  separators, the infinities and characters beyond ASCII are outside the model, and so
  is every number that is not a binary64 float as it is written (the model does not
  round): \<open>binary64\<close> is a sufficient test, a numerator below \<open>2^53\<close> over a power
  of two up to \<open>2^64\<close>.
\<close>

definition binary64 :: "rat \<Rightarrow> bool" where
  "binary64 q \<longleftrightarrow> (case quotient_of q of (p, r) \<Rightarrow> \<bar>p\<bar> < 2 ^ 53 \<and> r dvd 2 ^ 64)"

definition is_space :: "char \<Rightarrow> bool" where
  "is_space c \<longleftrightarrow> c \<in> set [CHR '' '', CHR 0x09, CHR 0x0A, CHR 0x0B, CHR 0x0C, CHR 0x0D]"

definition strip :: "string \<Rightarrow> string" where
  "strip s = rev (dropWhile is_space (rev (dropWhile is_space s)))"

definition exponent :: "string \<Rightarrow> int option" where
  "exponent s =
     (case s of
        [] \<Rightarrow> Some 0
      | c # r \<Rightarrow>
          if c = CHR ''e'' \<or> c = CHR ''E'' then
            (case r of
               [] \<Rightarrow> None
             | d # r' \<Rightarrow>
                 if d = CHR ''-'' then map_option (\<lambda>n. - int n) (parse_nat r')
                 else if d = CHR ''+'' then map_option int (parse_nat r')
                 else map_option int (parse_nat r))
          else None)"

definition scale10 :: "rat \<Rightarrow> int \<Rightarrow> rat" where
  "scale10 x e = (if 0 \<le> e then x * 10 ^ nat e else x / 10 ^ nat (- e))"

definition python_float :: "string \<Rightarrow> error + cell" where
  "python_float s =
     (if list_ex (\<lambda>c. c = CHR ''_'' \<or> (128::nat) \<le> of_char c) s then Inl NotModelled
      else
        let s1 = strip s;
            neg = (s1 \<noteq> [] \<and> hd s1 = CHR ''-'');
            s2 = (if s1 \<noteq> [] \<and> (hd s1 = CHR ''-'' \<or> hd s1 = CHR ''+'') then tl s1 else s1)
        in
        if lower s2 = ''nan'' then Inr NA
        else if lower s2 = ''inf'' \<or> lower s2 = ''infinity'' then Inl NotModelled
        else
          let ip = takeWhile is_digit s2;
              r1 = dropWhile is_digit s2;
              dot = (r1 \<noteq> [] \<and> hd r1 = CHR ''.'');
              fp = (if dot then takeWhile is_digit (tl r1) else []);
              r2 = (if dot then dropWhile is_digit (tl r1) else r1)
          in
          if ip = [] \<and> fp = [] then Inl ValueError
          else
            (case exponent r2 of
               None \<Rightarrow> Inl ValueError
             | Some e \<Rightarrow>
                 let m = of_nat (digits_nat (ip @ fp)) / 10 ^ length fp;
                     v = scale10 (if neg then - m else m) e
                 in if binary64 v then Inr (Float v) else Inl NotModelled))"

text \<open>
  \<open>series.astype(float)\<close>. An integer beyond \<open>2^53\<close> would be rounded and is outside
  the model.
\<close>

fun float_cell :: "cell \<Rightarrow> error + cell" where
  "float_cell NA = Inr NA"
| "float_cell (Integer n) =
     (if \<bar>n\<bar> < 2 ^ 53 then Inr (Float (of_int n)) else Inl NotModelled)"
| "float_cell (Float q) = Inr (Float q)"
| "float_cell (Str s) = python_float s"
| "float_cell (Timestamp y m d H M) = Inl TypeError"

definition astype_float :: "cell list \<Rightarrow> error + cell list" where
  "astype_float xs = mapM float_cell xs"

text \<open>
  \<open>f"{x:02d}:00"\<close>: an integer is written in decimal, padded with a zero to two
  characters; the format code \<open>d\<close> is refused for a float and for a string. A missing
  hour raises too, a TypeError when it is None and a ValueError when it is NaN; the model
  has one missing value and does not say which.
\<close>

definition format_02d :: "int \<Rightarrow> string" where
  "format_02d x =
     (if x < 0 then CHR ''-'' # digits_of (nat (- x))
      else if x < 10 then CHR ''0'' # digits_of (nat x)
      else digits_of (nat x))"

fun format_hour :: "cell \<Rightarrow> error + cell" where
  "format_hour (Integer x) = Inr (Str (format_02d x @ '':00''))"
| "format_hour NA = Inl NotModelled"
| "format_hour (Float q) = Inl ValueError"
| "format_hour (Str s) = Inl ValueError"
| "format_hour (Timestamp y m d H M) = Inl NotModelled"

subsection \<open>Reading dates\<close>

text \<open>
  \<open>pd.to_datetime(series, dayfirst=False)\<close> on strings, as pandas 2 does it: the format
  is guessed from the first value that is not missing, and every value is then parsed
  with that one format; a value that does not match it is a ValueError.

  The model covers the date texts \<open>NN/NN/YYYY\<close> and \<open>YYYY-NN-NN\<close> (fields of
  fixed width), alone or followed by a blank and \<open>HH:MM\<close>, and the years of pandas'
  nanosecond timestamps; any other text is outside the model.

  For \<open>NN/NN/YYYY\<close> the guess follows dateutil with \<open>dayfirst=False\<close>: the first
  field is the month, unless it is greater than 12, in which case it is the day.
\<close>

datatype date_order = MDY | DMY | YMD

type_synonym dt_format = "date_order \<times> bool"

datatype date_text = Slashed nat nat nat | Dashed nat nat nat

definition date_text :: "string \<Rightarrow> date_text option" where
  "date_text s =
     (if length s = 10 \<and> s ! 2 = CHR ''/'' \<and> s ! 5 = CHR ''/'' then
        (case (parse_nat (take 2 s), parse_nat (take 2 (drop 3 s)), parse_nat (drop 6 s)) of
           (Some a, Some b, Some y) \<Rightarrow> Some (Slashed a b y)
         | _ \<Rightarrow> None)
      else if length s = 10 \<and> s ! 4 = CHR ''-'' \<and> s ! 7 = CHR ''-'' then
        (case (parse_nat (take 4 s), parse_nat (take 2 (drop 5 s)), parse_nat (drop 8 s)) of
           (Some y, Some m, Some d) \<Rightarrow> Some (Dashed y m d)
         | _ \<Rightarrow> None)
      else None)"

definition time_text :: "string \<Rightarrow> (nat \<times> nat) option option" where
  "time_text s =
     (if s = [] then Some None
      else if length s = 6 \<and> s ! 0 = CHR '' '' \<and> s ! 3 = CHR '':'' then
        (case (parse_nat (take 2 (drop 1 s)), parse_nat (drop 4 s)) of
           (Some h, Some m) \<Rightarrow> Some (Some (h, m))
         | _ \<Rightarrow> None)
      else None)"

definition parse_text :: "string \<Rightarrow> (date_text \<times> (nat \<times> nat) option) option" where
  "parse_text s =
     (case (date_text (take 10 s), time_text (drop 10 s)) of
        (Some d, Some tm) \<Rightarrow> Some (d, tm)
      | _ \<Rightarrow> None)"

definition leap_year :: "nat \<Rightarrow> bool" where
  "leap_year y \<longleftrightarrow> y mod 4 = 0 \<and> (y mod 100 \<noteq> 0 \<or> y mod 400 = 0)"

definition days_in_month :: "nat \<Rightarrow> nat \<Rightarrow> nat" where
  "days_in_month y m =
     (if m = 2 then (if leap_year y then 29 else 28)
      else if m = 4 \<or> m = 6 \<or> m = 9 \<or> m = 11 then 30
      else 31)"

definition valid_date :: "nat \<Rightarrow> nat \<Rightarrow> nat \<Rightarrow> bool" where
  "valid_date y m d \<longleftrightarrow> 1 \<le> m \<and> m \<le> 12 \<and> 1 \<le> d \<and> d \<le> days_in_month y m"

definition make_timestamp :: "nat \<Rightarrow> nat \<Rightarrow> nat \<Rightarrow> (nat \<times> nat) option \<Rightarrow> error + cell" where
  "make_timestamp y m d tm =
     (if y < 1678 \<or> 2261 < y then Inl NotModelled
      else if \<not> valid_date y m d then Inl ValueError
      else (case tm of
              None \<Rightarrow> Inr (Timestamp y m d 0 0)
            | Some (h, mi) \<Rightarrow>
                if h \<le> 23 \<and> mi \<le> 59 then Inr (Timestamp y m d h mi) else Inl ValueError))"

definition guess_datetime_format :: "string \<Rightarrow> error + dt_format" where
  "guess_datetime_format s =
     (case parse_text s of
        None \<Rightarrow> Inl NotModelled
      | Some (Slashed a b y, tm) \<Rightarrow>
          if 12 < a
          then bind_err (make_timestamp y b a tm) (\<lambda>_. Inr (DMY, tm \<noteq> None))
          else bind_err (make_timestamp y a b tm) (\<lambda>_. Inr (MDY, tm \<noteq> None))
      | Some (Dashed y m d, tm) \<Rightarrow>
          bind_err (make_timestamp y m d tm) (\<lambda>_. Inr (YMD, tm \<noteq> None)))"

definition strptime :: "dt_format \<Rightarrow> string \<Rightarrow> error + cell" where
  "strptime fmt s =
     (case parse_text s of
        None \<Rightarrow> Inl NotModelled
      | Some (dt, tm) \<Rightarrow>
          if (tm \<noteq> None) \<noteq> snd fmt then Inl ValueError
          else (case (fst fmt, dt) of
                  (MDY, Slashed a b y) \<Rightarrow> make_timestamp y a b tm
                | (DMY, Slashed a b y) \<Rightarrow> make_timestamp y b a tm
                | (YMD, Dashed y m d) \<Rightarrow> make_timestamp y m d tm
                | _ \<Rightarrow> Inl ValueError))"

fun strptime_cell :: "dt_format \<Rightarrow> cell \<Rightarrow> error + cell" where
  "strptime_cell fmt NA = Inr NA"
| "strptime_cell fmt (Str s) = strptime fmt s"
| "strptime_cell fmt c = Inl NotModelled"

fun keep_timestamp :: "cell \<Rightarrow> error + cell" where
  "keep_timestamp NA = Inr NA"
| "keep_timestamp (Timestamp y m d H M) = Inr (Timestamp y m d H M)"
| "keep_timestamp c = Inl NotModelled"

definition to_datetime :: "cell list \<Rightarrow> error + cell list" where
  "to_datetime xs =
     (case find (\<lambda>c. c \<noteq> NA) xs of
        None \<Rightarrow> Inr xs
      | Some (Str s) \<Rightarrow>
          bind_err (guess_datetime_format s) (\<lambda>fmt. mapM (strptime_cell fmt) xs)
      | Some (Timestamp y m d H M) \<Rightarrow> mapM keep_timestamp xs
      | Some c \<Rightarrow> Inl NotModelled)"

text \<open>
  \<open>series.astype(str)\<close>: a string stays, an integer is written in decimal, and a column
  of timestamps that are all at midnight is written as \<open>YYYY-MM-DD\<close>.
\<close>

definition pad2 :: "nat \<Rightarrow> string" where
  "pad2 n = (if n < 10 then CHR ''0'' # digits_of n else digits_of n)"

definition pad4 :: "nat \<Rightarrow> string" where
  "pad4 n = replicate (4 - length (digits_of n)) CHR ''0'' @ digits_of n"

fun str_cell :: "cell \<Rightarrow> error + string" where
  "str_cell (Str s) = Inr s"
| "str_cell (Integer n) =
     Inr (if n < 0 then CHR ''-'' # digits_of (nat (- n)) else digits_of (nat n))"
| "str_cell (Timestamp y m d H M) = Inr (pad4 y @ ''-'' @ pad2 m @ ''-'' @ pad2 d)"
| "str_cell c = Inl NotModelled"

fun midnight :: "cell \<Rightarrow> bool" where
  "midnight (Timestamp y m d H M) \<longleftrightarrow> H = 0 \<and> M = 0"
| "midnight c \<longleftrightarrow> False"

fun is_timestamp :: "cell \<Rightarrow> bool" where
  "is_timestamp (Timestamp y m d H M) \<longleftrightarrow> True"
| "is_timestamp c \<longleftrightarrow> False"

definition astype_str :: "cell list \<Rightarrow> error + string list" where
  "astype_str xs =
     (if list_ex is_timestamp xs \<and> \<not> list_all midnight xs then Inl NotModelled
      else mapM str_cell xs)"

subsection \<open>Type normalizer\<close>

text \<open>\<open>df[name] = conv(df[name])\<close>, the form of every conversion of the normalizer.\<close>

definition convert_column ::
  "table \<Rightarrow> string \<Rightarrow> (cell list \<Rightarrow> error + cell list) \<Rightarrow> error + table" where
  "convert_column t name conv =
     bind_err (getitem t name) (\<lambda>c.
     bind_err (conv c) (\<lambda>c'.
     Inr (setitem t name c')))"

definition convertir_tipos_datos :: "table \<Rightarrow> error + table" where
  "convertir_tipos_datos df =
     (let df_result = df in
      bind_err (convert_column df_result ''date'' to_datetime) (\<lambda>df_result.
      bind_err (convert_column df_result ''hour'' (mapM format_hour)) (\<lambda>df_result.
      bind_err (convert_column df_result ''temperature'' astype_float) (\<lambda>df_result.
      bind_err (convert_column df_result ''humidity'' astype_float) (\<lambda>df_result.
      bind_err (convert_column df_result ''wind_speed'' astype_float) (\<lambda>df_result.
      if ''wind_direction_grados'' \<in> set (columns df_result)
      then convert_column df_result ''wind_direction_grados'' astype_float
      else Inr df_result))))))"

subsection \<open>Temporal unifier\<close>

definition unificar_fecha_hora :: "table \<Rightarrow> error + table" where
  "unificar_fecha_hora df =
     (let df_result = df in
      bind_err (getitem df_result ''date'') (\<lambda>d.
      bind_err (astype_str d) (\<lambda>ds.
      bind_err (getitem df_result ''hour'') (\<lambda>h.
      bind_err (astype_str h) (\<lambda>hs.
      bind_err (to_datetime (map (\<lambda>(a, b). Str (a @ '' '' @ b)) (zip ds hs))) (\<lambda>dt.
      Inr (setitem df_result ''datetime'' dt)))))))"

subsection \<open>Schema normalizer\<close>

definition normalizar_nombres_columnas :: "table \<Rightarrow> (string \<times> string) list \<Rightarrow> table" where
  "normalizar_nombres_columnas df renombres =
     (let df_result = df;
          df_result = df_result\<lparr>columns := map lower (columns df_result)\<rparr>
      in if renombres \<noteq> [] then rename_columns df_result renombres else df_result)"

subsection \<open>Wind status tagger\<close>

definition marcar_estado_viento :: "table \<Rightarrow> error + table" where
  "marcar_estado_viento df =
     (let df_result = df in
      bind_err (getitem df_result ''wind_direction_degrees'') (\<lambda>c.
      Inr (setitem df_result ''wind_status''
             (map (\<lambda>x. if isna x then Str ''calm'' else Str ''with wind'') c))))"

subsection \<open>Pipeline orchestrator\<close>

text \<open>\<open>df.pop(name)\<close>: the column, and the frame without it.\<close>

definition pop :: "table \<Rightarrow> string \<Rightarrow> error + (cell list \<times> table)" where
  "pop t name =
     bind_err (getitem t name) (\<lambda>c.
     bind_err (drop_columns t [name]) (\<lambda>t'. Inr (c, t')))"

definition renombres_limpieza :: "(string \<times> string) list" where
  "renombres_limpieza =
     [(''sky_condition_ingles'', ''sky_condition''),
      (''wind_direction_grados'', ''wind_direction_degrees''),
      (''wind_direction_completo'', ''wind_direction'')]"

definition proceso_completo_limpieza :: "table \<Rightarrow> error + table" where
  "proceso_completo_limpieza df =
     bind_err (traducir_direccion_viento df) (\<lambda>df.
     bind_err (traducir_condicion_cielo df) (\<lambda>df.
     bind_err (eliminar_columnas_innecesarias df
                 [''wind_direction'', ''sky_condition'', ''timestamp'']) (\<lambda>df.
     bind_err (convertir_tipos_datos df) (\<lambda>df.
     bind_err (unificar_fecha_hora df) (\<lambda>df.
     bind_err (eliminar_columnas_innecesarias df [''date'', ''hour'']) (\<lambda>df.
     bind_err (pop df ''datetime'') (\<lambda>(columna_datetime, df).
     bind_err (insert_first df ''datetime'' columna_datetime) (\<lambda>df.
     let df = normalizar_nombres_columnas df renombres_limpieza in
     bind_err (marcar_estado_viento df) (\<lambda>df.
     Inr (fst (verificar_duplicados df)))))))))))"

text \<open>
  A stage that leaves the rows in place: the result has the same number of rows, with the
  same labels, and the same cell under every column name outside \<open>S\<close>.
\<close>

definition rows_kept :: "string set \<Rightarrow> table \<Rightarrow> table \<Rightarrow> bool" where
  "rows_kept S t u \<longleftrightarrow>
     wf_table u \<and> length (rows u) = length (rows t) \<and>
     (\<forall>i < length (rows t).
        fst (rows u ! i) = fst (rows t ! i) \<and>
        (\<forall>m. m \<notin> S \<longrightarrow> cell_of u (rows u ! i) m = cell_of t (rows t ! i) m))"

text \<open>The rows \<open>drop_duplicates\<close> keeps, given the cells already seen.\<close>

definition kept_from :: "cell list list \<Rightarrow> row list \<Rightarrow> row list" where
  "kept_from seen rs = map fst (filter snd (zip rs (map Not (duplicated_from seen rs))))"


subsection \<open>Example tables\<close>

definition ejemplo_crudo :: table where
  "ejemplo_crudo =
     \<lparr>columns = [''date'', ''hour'', ''temperature'', ''humidity'', ''wind_speed'',
                 ''wind_direction'', ''sky_condition'', ''timestamp''],
      rows = [(0, [Str ''18/02/2025'', Integer 8, Str ''22.5'', Str ''65'', Str ''10'',
                   Str ''N'', Str ''Despejado'', Str ''18/02/2025 08:15:00''])]\<rparr>"

definition ejemplo_limpio :: table where
  "ejemplo_limpio =
     \<lparr>columns = [''datetime'', ''temperature'', ''humidity'', ''wind_speed'',
                 ''wind_direction'', ''wind_direction_degrees'', ''sky_condition'',
                 ''wind_status''],
      rows = [(0, [Timestamp 2025 2 18 8 0, Float (45 / 2), Float 65, Float 10,
                   Str ''north'', Float 0, Str ''clear'', Str ''with wind''])]\<rparr>"

definition ejemplo_dia_mes :: table where
  "ejemplo_dia_mes =
     \<lparr>columns = [''date'', ''hour'', ''temperature'', ''humidity'', ''wind_speed'',
                 ''wind_direction'', ''sky_condition'', ''timestamp''],
      rows = [(0, [Str ''05/02/2025'', Integer 8, Str ''22.5'', Str ''65'', Str ''10'',
                   Str ''N'', Str ''Despejado'', Str ''05/02/2025 08:15:00''])]\<rparr>"

definition ejemplo_dia_mes_limpio :: table where
  "ejemplo_dia_mes_limpio =
     \<lparr>columns = [''datetime'', ''temperature'', ''humidity'', ''wind_speed'',
                 ''wind_direction'', ''wind_direction_degrees'', ''sky_condition'',
                 ''wind_status''],
      rows = [(0, [Timestamp 2025 5 2 8 0, Float (45 / 2), Float 65, Float 10,
                   Str ''north'', Float 0, Str ''clear'', Str ''with wind''])]\<rparr>"

definition ejemplo_viento :: table where
  "ejemplo_viento =
     \<lparr>columns = [''date'', ''hour'', ''temperature'', ''humidity'', ''wind_speed'',
                 ''wind_direction'', ''sky_condition'', ''timestamp''],
      rows = [(0, [Str ''2025-02-18'', Integer 8, Str ''22.5'', Str ''65'', Str ''10'',
                   Str ''N'', Str ''Despejado'', Str ''2025-02-18 08:15:00'']),
              (1, [Str ''2025-02-18'', Integer 9, Str ''22.5'', Str ''65'', Str ''0'',
                   Str ''C'', Str ''Cubierto'', Str ''2025-02-18 08:15:00'']),
              (2, [Str ''2025-02-18'', Integer 10, Str ''22.5'', Str ''65'', NA,
                   NA, NA, Str ''2025-02-18 08:15:00'']),
              (3, [Str ''2025-02-18'', Integer 11, Str ''22.5'', Str ''65'', Str ''10'',
                   Str ''SW'', Str ''Niebla'', Str ''2025-02-18 08:15:00''])]\<rparr>"

definition ejemplo_viento_limpio :: table where
  "ejemplo_viento_limpio =
     \<lparr>columns = [''datetime'', ''temperature'', ''humidity'', ''wind_speed'',
                 ''wind_direction'', ''wind_direction_degrees'', ''sky_condition'',
                 ''wind_status''],
      rows = [(0, [Timestamp 2025 2 18 8 0, Float (45 / 2), Float 65, Float 10,
                   Str ''north'', Float 0, Str ''clear'', Str ''with wind'']),
              (1, [Timestamp 2025 2 18 9 0, Float (45 / 2), Float 65, Float 0,
                   Str ''calm'', NA, Str ''overcast'', Str ''calm'']),
              (2, [Timestamp 2025 2 18 10 0, Float (45 / 2), Float 65, NA,
                   NA, NA, NA, Str ''calm'']),
              (3, [Timestamp 2025 2 18 11 0, Float (45 / 2), Float 65, Float 10,
                   NA, NA, NA, Str ''calm''])]\<rparr>"

definition ejemplo_outliers :: table where
  "ejemplo_outliers =
     \<lparr>columns = [''temperature'', ''humidity'', ''wind_speed''],
      rows = [(0, [Float (45 / 2), Integer 65, Integer 10]),
              (1, [Float (- 15), Integer 68, Integer (- 5)]),
              (2, [Float 55, Integer 101, Integer 15]),
              (3, [Float 20, Integer 50, Integer 8])]\<rparr>"

definition ejemplo_faltantes :: table where
  "ejemplo_faltantes =
     \<lparr>columns = [''temperature'', ''humidity'', ''wind_speed''],
      rows = [(0, [NA, Integer 50, NA]),
              (1, [Float (- 15), NA, NA])]\<rparr>"


definition ejemplo_duplicados :: table where
  "ejemplo_duplicados =
     \<lparr>columns = [''date'', ''hour'', ''wind_direction''],
      rows = [(0, [Str ''2025-02-18'', Integer 8, Str ''N'']),
              (1, [Str ''2025-02-18'', Integer 9, Str ''NE'']),
              (2, [Str ''2025-02-19'', Integer 8, Str ''S'']),
              (0, [Str ''2025-02-18'', Float 8, Str ''N'']),
              (2, [Str ''2025-02-19'', Integer 8, Str ''S'']),
              (5, [Str ''2025-02-18'', Integer 8, Str ''N''])]\<rparr>"

definition ejemplo_sin_columnas :: table where
  "ejemplo_sin_columnas = \<lparr>columns = [], rows = [(0, []), (1, [])]\<rparr>"

definition ejemplo_sin_duplicados :: table where
  "ejemplo_sin_duplicados =
     \<lparr>columns = [''date'', ''hour'', ''wind_direction''],
      rows = [(0, [Str ''2025-02-18'', Integer 8, Str ''N'']),
              (1, [Str ''2025-02-18'', Integer 9, Str ''NE'']),
              (2, [Str ''2025-02-19'', Integer 8, Str ''S''])]\<rparr>"


section \<open>Properties of the deduplicator\<close>

lemma kept_from_Nil: "kept_from seen [] = []"
  by (simp add: kept_from_def)

lemma kept_from_Cons:
  "kept_from seen (r # rs) =
     (if row_key r \<in> set seen then kept_from (row_key r # seen) rs
      else r # kept_from (row_key r # seen) rs)"
  by (simp add: kept_from_def)

lemma set_kept_from: "row_key ` set (kept_from seen rs) = row_key ` set rs - set seen"
  by (induction rs arbitrary: seen) (auto simp: kept_from_Nil kept_from_Cons)

lemma set_kept_from_subset: "set (kept_from seen rs) \<subseteq> set rs"
  by (induction rs arbitrary: seen) (auto simp: kept_from_Nil kept_from_Cons)

lemma distinct_kept_from: "distinct (map row_key (kept_from seen rs))"
proof (induction rs arbitrary: seen)
  case Nil
  show ?case by (simp add: kept_from_Nil)
next
  case (Cons r rs)
  have "row_key r \<notin> row_key ` set (kept_from (row_key r # seen) rs)"
    by (simp add: set_kept_from)
  with Cons show ?case by (simp add: kept_from_Cons)
qed

lemma find_kept_from:
  "R \<notin> set seen \<Longrightarrow>
   find (\<lambda>r. row_key r = R) (kept_from seen rs) = find (\<lambda>r. row_key r = R) rs"
  by (induction rs arbitrary: seen) (auto simp: kept_from_Nil kept_from_Cons)

lemma sum_duplicated_from:
  "series_sum (duplicated_from seen rs) + length (kept_from seen rs) = length rs"
  by (induction rs arbitrary: seen) (auto simp: kept_from_Nil kept_from_Cons series_sum_def)

lemma kept_from_distinct:
  "distinct (map row_key rs) \<Longrightarrow> row_key ` set rs \<inter> set seen = {} \<Longrightarrow> kept_from seen rs = rs"
  by (induction rs arbitrary: seen) (auto simp: kept_from_Nil kept_from_Cons)

lemma length_kept_from: "length (kept_from [] rs) = card (row_key ` set rs)"
proof -
  have "length (kept_from [] rs) = length (map row_key (kept_from [] rs))" by simp
  also have "\<dots> = card (set (map row_key (kept_from [] rs)))"
    using distinct_card [OF distinct_kept_from [of "[]" rs]] by simp
  also have "\<dots> = card (row_key ` set rs)"
    using set_kept_from [of "[]" rs] by simp
  finally show ?thesis .
qed

text \<open>The rows kept are the first occurrences, in their order.\<close>

lemma kept_from_positions:
  "kept_from seen rs =
     map (\<lambda>i. rs ! i)
       (filter (\<lambda>i. row_key (rs ! i) \<notin> set seen \<and>
                     (\<forall>j < i. row_key (rs ! j) \<noteq> row_key (rs ! i)))
          [0..<length rs])"
proof (induction rs arbitrary: seen)
  case Nil
  show ?case by (simp add: kept_from_Nil)
next
  case (Cons r rs)
  have upt: "[0..<length (r # rs)] = 0 # map Suc [0..<length rs]"
    by (simp add: upt_conv_Cons map_Suc_upt del: upt_Suc)
  show ?case
    unfolding upt kept_from_Cons Cons.IH
    by (auto simp: filter_map o_def All_less_Suc2 conj_ac eq_commute [of "row_key r"])
qed

lemma sum_count_minus_one:
  "(\<Sum>x \<in> set xs. count_list xs x - 1) + card (set xs) = length xs"
proof -
  have "(\<Sum>x \<in> set xs. count_list xs x - 1) + card (set xs)
      = (\<Sum>x \<in> set xs. (count_list xs x - 1) + 1)"
    by (simp only: sum.distrib sum_constant mult_1_right of_nat_id)
  also have "\<dots> = (\<Sum>x \<in> set xs. count_list xs x)"
  proof (rule sum.cong)
    fix x assume "x \<in> set xs"
    then have "count_list xs x \<noteq> 0" by (simp add: count_list_0_iff)
    then show "count_list xs x - 1 + 1 = count_list xs x" by simp
  qed simp
  also have "\<dots> = length xs"
    by (simp add: sum_count_set)
  finally show ?thesis .
qed

lemma rows_drop_duplicates:
  "columns t \<noteq> [] \<Longrightarrow> rows (drop_duplicates t) = kept_from [] (rows t)"
  by (simp add: drop_duplicates_def boolean_index_def duplicated_def kept_from_def
      frame_empty_def)

lemma columns_drop_duplicates: "columns (drop_duplicates t) = columns t"
  by (simp add: drop_duplicates_def boolean_index_def)

lemma sum_duplicated:
  "columns t \<noteq> [] \<Longrightarrow>
   series_sum (duplicated t) + length (kept_from [] (rows t)) = length (rows t)"
  using sum_duplicated_from [of "[]" "rows t"]
  by (auto simp: duplicated_def frame_empty_def series_sum_def kept_from_Nil)

lemma count_list_distinct: "distinct xs \<Longrightarrow> x \<in> set xs \<Longrightarrow> count_list xs x = 1"
  by (induction xs) (auto simp: count_list_0_iff)

lemma find_unique:
  "r \<in> set rs \<Longrightarrow> count_list (map row_key rs) (row_key r) = 1 \<Longrightarrow>
   find (\<lambda>x. row_key x = row_key r) rs = Some r"
proof (induction rs)
  case Nil
  then show ?case by simp
next
  case (Cons a rs)
  show ?case
  proof (cases "row_key a = row_key r")
    case True
    with Cons.prems have "count_list (map row_key rs) (row_key r) = 0" by simp
    then have "row_key r \<notin> row_key ` set rs" by (simp add: count_list_0_iff)
    with Cons.prems have "a = r" by auto
    with True show ?thesis by simp
  next
    case False
    with Cons show ?thesis by auto
  qed
qed

lemma verificar_duplicados_empty: "frame_empty u \<Longrightarrow> verificar_duplicados u = (u, 0)"
  by (simp add: verificar_duplicados_def Let_def drop_duplicates_def duplicated_def
      series_sum_def)

lemma verificar_duplicados_distinct:
  assumes d: "distinct (map row_key (rows u))"
  shows "verificar_duplicados u = (u, 0)"
proof (cases "frame_empty u")
  case True
  then show ?thesis by (rule verificar_duplicados_empty)
next
  case False
  then have c: "columns u \<noteq> []" by (simp add: frame_empty_def)
  have k: "kept_from [] (rows u) = rows u"
    using d by (simp add: kept_from_distinct)
  have "rows (drop_duplicates u) = rows u"
    by (simp add: rows_drop_duplicates [OF c] k)
  then have "drop_duplicates u = u"
    by (simp add: drop_duplicates_def boolean_index_def split: if_splits)
  moreover have "series_sum (duplicated u) = 0"
    using sum_duplicated [OF c] k by simp
  ultimately show ?thesis
    by (simp add: verificar_duplicados_def Let_def)
qed

text \<open>
  Claim C5, as the code has it. On a frame with at least one column,
  \<open>verificar_duplicados\<close> keeps the columns and returns the rows that have no equal row
  before them, in their order and with their labels: every row of the input occurs
  exactly once in the result, the copy kept is the first occurrence, and a row without
  duplicate is kept. The reported count is the sum of \<open>k - 1\<close> over the groups of
  \<open>k > 1\<close> equal rows.
\<close>

theorem verificar_duplicados_first_occurrence:
  assumes cols: "columns t \<noteq> []"
    and v: "verificar_duplicados t = (out, n)"
  shows "columns out = columns t
       \<and> rows out =
           map (\<lambda>i. rows t ! i)
             (filter (\<lambda>i. \<forall>j < i. row_key (rows t ! j) \<noteq> row_key (rows t ! i))
                [0..<length (rows t)])
       \<and> (\<forall>r \<in> set (rows t). count_list (map row_key (rows out)) (row_key r) = 1)
       \<and> (\<forall>R. find (\<lambda>r. row_key r = R) (rows out) = find (\<lambda>r. row_key r = R) (rows t))
       \<and> n = (\<Sum>R \<in> {R \<in> set (map row_key (rows t)).
                        1 < count_list (map row_key (rows t)) R}.
                 count_list (map row_key (rows t)) R - 1)
       \<and> (\<forall>r \<in> set (rows t).
            count_list (map row_key (rows t)) (row_key r) = 1 \<longrightarrow> r \<in> set (rows out))"
proof -
  let ?xs = "map row_key (rows t)"
  from v have out: "out = drop_duplicates t" and n: "n = series_sum (duplicated t)"
    by (simp_all add: verificar_duplicados_def Let_def)
  have rows_out: "rows out = kept_from [] (rows t)"
    by (simp add: out rows_drop_duplicates [OF cols])
  have c1: "columns out = columns t"
    by (simp add: out columns_drop_duplicates)
  have c0: "rows out =
           map (\<lambda>i. rows t ! i)
             (filter (\<lambda>i. \<forall>j < i. row_key (rows t ! j) \<noteq> row_key (rows t ! i))
                [0..<length (rows t)])"
    unfolding rows_out kept_from_positions by simp
  have c2: "\<forall>r \<in> set (rows t). count_list (map row_key (rows out)) (row_key r) = 1"
  proof
    fix r assume "r \<in> set (rows t)"
    then have "row_key r \<in> set (map row_key (rows out))"
      using set_kept_from [of "[]" "rows t"] by (simp add: rows_out)
    moreover have "distinct (map row_key (rows out))"
      by (simp add: rows_out distinct_kept_from)
    ultimately show "count_list (map row_key (rows out)) (row_key r) = 1"
      by (rule count_list_distinct [rotated])
  qed
  have c3: "\<forall>R. find (\<lambda>r. row_key r = R) (rows out) = find (\<lambda>r. row_key r = R) (rows t)"
    by (simp add: rows_out find_kept_from)
  have "n + length (rows out) = length (rows t)"
    using sum_duplicated [OF cols] by (simp add: n rows_out)
  moreover have "length (rows out) = card (set ?xs)"
    by (simp add: rows_out length_kept_from)
  moreover have "(\<Sum>x \<in> set ?xs. count_list ?xs x - 1) + card (set ?xs) = length (rows t)"
    using sum_count_minus_one [of ?xs] by simp
  ultimately have n_all: "n = (\<Sum>x \<in> set ?xs. count_list ?xs x - 1)"
    by linarith
  have "(\<Sum>x \<in> {R \<in> set ?xs. 1 < count_list ?xs R}. count_list ?xs x - 1)
      = (\<Sum>x \<in> set ?xs. count_list ?xs x - 1)"
    by (rule sum.mono_neutral_left) auto
  with n_all have c4: "n = (\<Sum>R \<in> {R \<in> set ?xs. 1 < count_list ?xs R}. count_list ?xs R - 1)"
    by simp
  have c5: "\<forall>r \<in> set (rows t). count_list ?xs (row_key r) = 1 \<longrightarrow> r \<in> set (rows out)"
  proof (intro ballI impI)
    fix r assume r: "r \<in> set (rows t)" and "count_list ?xs (row_key r) = 1"
    then have "find (\<lambda>x. row_key x = row_key r) (rows t) = Some r"
      by (rule find_unique)
    with c3 have "find (\<lambda>x. row_key x = row_key r) (rows out) = Some r" by simp
    then show "r \<in> set (rows out)"
      by (auto simp: find_Some_iff)
  qed
  from c1 c0 c2 c3 c4 c5 show ?thesis by blast
qed

text \<open>
  Claim C5, on a table with a row present three times (once with the hour as a float)
  and a row present twice.
\<close>

theorem verificar_duplicados_first_occurrence_witness:
  "columns ejemplo_duplicados \<noteq> []
   \<and> verificar_duplicados ejemplo_duplicados = (ejemplo_sin_duplicados, 3)
   \<and> count_list (map row_key (rows ejemplo_sin_duplicados))
        (row_key (5, [Str ''2025-02-18'', Integer 8, Str ''N''])) = 1"
proof -
  have c: "columns ejemplo_duplicados \<noteq> []"
    by (simp add: ejemplo_duplicados_def)
  have h: "verificar_duplicados ejemplo_duplicados = (ejemplo_sin_duplicados, 3)"
    by (simp add: verificar_duplicados_def Let_def drop_duplicates_def duplicated_def
        frame_empty_def row_key_def boolean_index_def series_sum_def ejemplo_duplicados_def
        ejemplo_sin_duplicados_def)
  have r: "(5, [Str ''2025-02-18'', Integer 8, Str ''N'']) \<in> set (rows ejemplo_duplicados)"
    by (simp add: ejemplo_duplicados_def)
  from verificar_duplicados_first_occurrence [OF c h] r c h show ?thesis
    by fastforce
qed

text \<open>
  Claim C5 as stated fails on a frame without columns: its two rows are equal in every
  column, both are returned and the count is 0.
\<close>

theorem verificar_duplicados_no_columns:
  "verificar_duplicados ejemplo_sin_columnas = (ejemplo_sin_columnas, 0)
   \<and> rows ejemplo_sin_columnas = [(0, []), (1, [])]
   \<and> row_key (0, []) = row_key (1, [])"
  by (simp add: verificar_duplicados_def Let_def drop_duplicates_def duplicated_def
      frame_empty_def series_sum_def ejemplo_sin_columnas_def row_key_def)

text \<open>
  Claim C8. Deduplicating the table returned by \<open>verificar_duplicados\<close> returns that
  same table with the count 0; and a table whose rows are pairwise different is returned
  unchanged with the count 0.
\<close>

theorem verificar_duplicados_idempotent:
  "verificar_duplicados (fst (verificar_duplicados t)) = (fst (verificar_duplicados t), 0)
   \<and> (distinct (map row_key (rows t)) \<longrightarrow> verificar_duplicados t = (t, 0))"
proof -
  have first: "fst (verificar_duplicados t) = drop_duplicates t"
    by (simp add: verificar_duplicados_def Let_def)
  have "verificar_duplicados (drop_duplicates t) = (drop_duplicates t, 0)"
  proof (cases "frame_empty t")
    case True
    then have "drop_duplicates t = t" by (simp add: drop_duplicates_def)
    with True show ?thesis by (simp add: verificar_duplicados_empty)
  next
    case False
    then have "columns t \<noteq> []" by (simp add: frame_empty_def)
    then have "distinct (map row_key (rows (drop_duplicates t)))"
      by (simp add: rows_drop_duplicates distinct_kept_from)
    then show ?thesis by (rule verificar_duplicados_distinct)
  qed
  with verificar_duplicados_distinct [of t] show ?thesis
    by (simp add: first)
qed

text \<open>Claim C8, on a table without duplicates.\<close>

theorem verificar_duplicados_idempotent_witness:
  "distinct (map row_key (rows ejemplo_sin_duplicados))
   \<and> verificar_duplicados ejemplo_sin_duplicados = (ejemplo_sin_duplicados, 0)"
proof -
  have d: "distinct (map row_key (rows ejemplo_sin_duplicados))"
    by (simp add: ejemplo_sin_duplicados_def row_key_def)
  with verificar_duplicados_idempotent [of ejemplo_sin_duplicados] show ?thesis
    by blast
qed

section \<open>Properties of the outlier detector\<close>

lemma bind_err_Inr_iff: "bind_err m f = Inr y \<longleftrightarrow> (\<exists>x. m = Inr x \<and> f x = Inr y)"
  by (cases m) (simp_all add: bind_err_def)

lemma mapM_Inr_iff: "mapM f xs = Inr ys \<longleftrightarrow> map f xs = map Inr ys"
proof (induction xs arbitrary: ys)
  case Nil
  show ?case by auto
next
  case (Cons x xs)
  show ?case
  proof (cases "f x")
    case (Inl e)
    then show ?thesis by (cases ys) auto
  next
    case (Inr y)
    show ?thesis
    proof (cases "mapM f xs")
      case (Inl e)
      with Cons.IH have "\<And>zs. map f xs \<noteq> map Inr zs" by simp
      with Inl Inr show ?thesis by (cases ys) auto
    next
      case inr: (Inr zs)
      with Cons.IH [of zs] have "map f xs = map Inr zs" by simp
      with inr Inr show ?thesis by (cases ys) (auto simp: inj_map_eq_map)
    qed
  qed
qed

lemma index_of_Some:
  "index_of x xs = Some i \<Longrightarrow> i < length xs \<and> xs ! i = x"
  by (induction xs arbitrary: i) (auto split: if_splits)

lemma index_of_None: "index_of x xs = None \<longleftrightarrow> x \<notin> set xs"
  by (induction xs) auto

lemma map_of_zip_index:
  "index_of x xs = Some i \<Longrightarrow> length ys = length xs \<Longrightarrow> map_of (zip xs ys) x = Some (ys ! i)"
proof (induction xs arbitrary: i ys)
  case Nil
  then show ?case by simp
next
  case (Cons a xs)
  then show ?case by (cases ys) (auto split: if_splits)
qed

lemma wf_table_row: "wf_table t \<Longrightarrow> r \<in> set (rows t) \<Longrightarrow> length (snd r) = length (columns t)"
  by (simp add: wf_table_def list_all_iff)

lemma getitem_Inr:
  assumes "wf_table t" and "getitem t name = Inr xs"
  shows "xs = map (\<lambda>r. the (cell_of t r name)) (rows t) \<and> name \<in> set (columns t)"
proof -
  from assms(2) obtain i where i: "index_of name (columns t) = Some i"
    and xs: "xs = map (\<lambda>r. snd r ! i) (rows t)"
    by (auto simp: getitem_def split: option.splits)
  have "\<forall>r \<in> set (rows t). cell_of t r name = Some (snd r ! i)"
    using assms(1) i by (simp add: cell_of_def map_of_zip_index wf_table_row)
  moreover have "name \<in> set (columns t)"
    using i index_of_None [of name "columns t"] by auto
  ultimately show ?thesis by (simp add: xs)
qed

lemma getitem_present:
  "name \<in> set (columns t) \<Longrightarrow> \<exists>xs. getitem t name = Inr xs"
  using index_of_None [of name "columns t"] by (auto simp: getitem_def split: option.splits)

lemma cell_of_present:
  assumes "wf_table t" and "name \<in> set (columns t)" and "r \<in> set (rows t)"
  shows "\<exists>c. cell_of t r name = Some c"
proof -
  from assms(2) obtain i where i: "index_of name (columns t) = Some i"
    using index_of_None [of name "columns t"] by auto
  with assms show ?thesis
    by (simp add: cell_of_def map_of_zip_index wf_table_row)
qed

lemma cell_lt_value: "cell_lt c k = Inr b \<Longrightarrow> b = value_below (value_of c) (of_int k)"
  by (cases c) (auto simp: value_below_def)

lemma cell_gt_value: "cell_gt c k = Inr b \<Longrightarrow> b = value_above (value_of c) (of_int k)"
  by (cases c) (auto simp: value_above_def)

lemma cell_lt_numeric: "is_numeric c \<Longrightarrow> \<exists>b. cell_lt c k = Inr b"
  by (cases c) (auto simp: is_numeric_def)

lemma cell_gt_numeric: "is_numeric c \<Longrightarrow> \<exists>b. cell_gt c k = Inr b"
  by (cases c) (auto simp: is_numeric_def)

lemma series_lt_Inr:
  "series_lt xs k = Inr bs \<Longrightarrow> bs = map (\<lambda>c. value_below (value_of c) (of_int k)) xs"
  unfolding series_lt_def mapM_Inr_iff
  by (induction xs arbitrary: bs) (auto dest: cell_lt_value)

lemma series_gt_Inr:
  "series_gt xs k = Inr bs \<Longrightarrow> bs = map (\<lambda>c. value_above (value_of c) (of_int k)) xs"
  unfolding series_gt_def mapM_Inr_iff
  by (induction xs arbitrary: bs) (auto dest: cell_gt_value)

lemma mapM_total: "(\<forall>x \<in> set xs. \<exists>y. f x = Inr y) \<Longrightarrow> \<exists>ys. mapM f xs = Inr ys"
  by (induction xs) (auto split: sum.splits)

lemma series_or_map: "series_or (map f xs) (map g xs) = map (\<lambda>x. f x \<or> g x) xs"
  by (induction xs) (auto simp: series_or_def)

lemma boolean_index_map: "boolean_index t (map P (rows t)) = t\<lparr>rows := filter P (rows t)\<rparr>"
proof -
  have "map fst (filter snd (zip xs (map P xs))) = filter P xs" for xs :: "row list"
    by (induction xs) auto
  then show ?thesis by (simp add: boolean_index_def)
qed

lemma getitem_values:
  assumes wf: "wf_table t" and g: "getitem t name = Inr xs"
  shows "map (\<lambda>c. P (value_of c)) xs = map (\<lambda>r. P (cell_value t r name)) (rows t)"
proof -
  have xs: "xs = map (\<lambda>r. the (cell_of t r name)) (rows t)" and name: "name \<in> set (columns t)"
    using getitem_Inr [OF wf g] by simp_all
  have "P (value_of (the (cell_of t r name))) = P (cell_value t r name)" if "r \<in> set (rows t)" for r
    using cell_of_present [OF wf name that] by (auto simp: cell_value_def)
  then show ?thesis by (simp add: xs)
qed

lemma detectar_outliers_Inr:
  assumes wf: "wf_table t" and ok: "detectar_outliers t = Inr out"
  shows "out = t\<lparr>rows := filter (outlier_row t) (rows t)\<rparr>"
proof -
  from ok obtain t1 m1 t2 m2 h1 m3 h2 m4 w1 m5 where
    g: "getitem t ''temperature'' = Inr t1" "getitem t ''temperature'' = Inr t2"
       "getitem t ''humidity'' = Inr h1" "getitem t ''humidity'' = Inr h2"
       "getitem t ''wind_speed'' = Inr w1"
    and m: "series_lt t1 (- 10) = Inr m1" "series_gt t2 50 = Inr m2" "series_lt h1 0 = Inr m3"
       "series_gt h2 100 = Inr m4" "series_lt w1 0 = Inr m5"
    and out: "out = boolean_index t (series_or (series_or (series_or (series_or m1 m2) m3) m4) m5)"
    unfolding detectar_outliers_def bind_err_Inr_iff by auto
  have m1: "m1 = map (\<lambda>r. value_below (cell_value t r ''temperature'') (- 10)) (rows t)"
    using series_lt_Inr [OF m(1)] getitem_values [OF wf g(1)] by simp
  have m2: "m2 = map (\<lambda>r. value_above (cell_value t r ''temperature'') 50) (rows t)"
    using series_gt_Inr [OF m(2)] getitem_values [OF wf g(2)] by simp
  have m3: "m3 = map (\<lambda>r. value_below (cell_value t r ''humidity'') 0) (rows t)"
    using series_lt_Inr [OF m(3)] getitem_values [OF wf g(3)] by simp
  have m4: "m4 = map (\<lambda>r. value_above (cell_value t r ''humidity'') 100) (rows t)"
    using series_gt_Inr [OF m(4)] getitem_values [OF wf g(4)] by simp
  have m5: "m5 = map (\<lambda>r. value_below (cell_value t r ''wind_speed'') 0) (rows t)"
    using series_lt_Inr [OF m(5)] getitem_values [OF wf g(5)] by simp
  have "series_or (series_or (series_or (series_or m1 m2) m3) m4) m5 = map (outlier_row t) (rows t)"
    unfolding m1 m2 m3 m4 m5 series_or_map outlier_row_def by (simp add: disj_ac)
  then show ?thesis
    by (simp add: out boolean_index_map)
qed

lemma series_numeric:
  assumes wf: "wf_table t" and num: "numeric_column t name" and g: "getitem t name = Inr xs"
  shows "\<exists>bs. series_lt xs k = Inr bs" and "\<exists>bs. series_gt xs k = Inr bs"
proof -
  have xs: "xs = map (\<lambda>r. the (cell_of t r name)) (rows t)"
    using getitem_Inr [OF wf g] by simp
  have "\<forall>c \<in> set xs. is_numeric c"
    using num by (auto simp: xs numeric_column_def list_all_iff split: option.splits)
  then show "\<exists>bs. series_lt xs k = Inr bs" and "\<exists>bs. series_gt xs k = Inr bs"
    unfolding series_lt_def series_gt_def
    by (auto intro!: mapM_total cell_lt_numeric cell_gt_numeric)
qed

lemma detectar_outliers_total:
  assumes wf: "wf_table t"
    and nt: "numeric_column t ''temperature''"
    and nh: "numeric_column t ''humidity''"
    and nw: "numeric_column t ''wind_speed''"
  shows "\<exists>out. detectar_outliers t = Inr out"
proof -
  from nt obtain te where te: "getitem t ''temperature'' = Inr te"
    using getitem_present by (auto simp: numeric_column_def)
  from nh obtain hu where hu: "getitem t ''humidity'' = Inr hu"
    using getitem_present by (auto simp: numeric_column_def)
  from nw obtain ws where ws: "getitem t ''wind_speed'' = Inr ws"
    using getitem_present by (auto simp: numeric_column_def)
  obtain m1 where m1: "series_lt te (- 10) = Inr m1"
    using series_numeric(1) [OF wf nt te] by blast
  obtain m2 where m2: "series_gt te 50 = Inr m2"
    using series_numeric(2) [OF wf nt te] by blast
  obtain m3 where m3: "series_lt hu 0 = Inr m3"
    using series_numeric(1) [OF wf nh hu] by blast
  obtain m4 where m4: "series_gt hu 100 = Inr m4"
    using series_numeric(2) [OF wf nh hu] by blast
  obtain m5 where m5: "series_lt ws 0 = Inr m5"
    using series_numeric(1) [OF wf nw ws] by blast
  show ?thesis
    by (simp add: detectar_outliers_def bind_err_def te hu ws m1 m2 m3 m4 m5)
qed

text \<open>
  Claim C7. On a table whose temperature, humidity and wind speed columns are numeric,
  \<open>detectar_outliers\<close> returns the table restricted to the rows with
  temperature < -10 or temperature > 50 or humidity < 0 or humidity > 100 or
  wind speed < 0. A row with temperature -15, or temperature 55, or humidity 101, or
  wind speed -5 is returned; a row with temperature 20, humidity 50 and wind speed 8 is not.
\<close>

theorem detectar_outliers_subset:
  assumes wf: "wf_table t"
    and nt: "numeric_column t ''temperature''"
    and nh: "numeric_column t ''humidity''"
    and nw: "numeric_column t ''wind_speed''"
  shows "detectar_outliers t = Inr (t\<lparr>rows := filter (outlier_row t) (rows t)\<rparr>)
       \<and> (\<forall>out r. detectar_outliers t = Inr out \<and> r \<in> set (rows t) \<longrightarrow>
            (cell_value t r ''temperature'' = Some (- 15) \<longrightarrow> r \<in> set (rows out)) \<and>
            (cell_value t r ''temperature'' = Some 55 \<longrightarrow> r \<in> set (rows out)) \<and>
            (cell_value t r ''humidity'' = Some 101 \<longrightarrow> r \<in> set (rows out)) \<and>
            (cell_value t r ''wind_speed'' = Some (- 5) \<longrightarrow> r \<in> set (rows out)) \<and>
            (cell_value t r ''temperature'' = Some 20 \<and> cell_value t r ''humidity'' = Some 50
               \<and> cell_value t r ''wind_speed'' = Some 8 \<longrightarrow> r \<notin> set (rows out)))"
proof -
  obtain out where out: "detectar_outliers t = Inr out"
    using detectar_outliers_total [OF wf nt nh nw] by blast
  have eq: "out = t\<lparr>rows := filter (outlier_row t) (rows t)\<rparr>"
    using detectar_outliers_Inr [OF wf out] .
  have "r \<in> set (rows out) \<longleftrightarrow> outlier_row t r" if "r \<in> set (rows t)" for r
    using that by (simp add: eq)
  then show ?thesis
    using out eq by (auto simp: outlier_row_def value_below_def value_above_def)
qed

text \<open>
  Claim C10. A missing measurement satisfies no comparison of the detector, so a row in
  which each of the three measurements is either missing or within its range is not
  among the rows \<open>detectar_outliers\<close> returns.
\<close>

theorem detectar_outliers_missing_not_flagged:
  assumes wf: "wf_table t"
    and ok: "detectar_outliers t = Inr out"
    and r: "r \<in> set (rows t)"
    and te: "cell_of t r ''temperature'' = Some NA \<or>
             (\<exists>v. cell_value t r ''temperature'' = Some v \<and> - 10 \<le> v \<and> v \<le> 50)"
    and hu: "cell_of t r ''humidity'' = Some NA \<or>
             (\<exists>v. cell_value t r ''humidity'' = Some v \<and> 0 \<le> v \<and> v \<le> 100)"
    and ws: "cell_of t r ''wind_speed'' = Some NA \<or>
             (\<exists>v. cell_value t r ''wind_speed'' = Some v \<and> 0 \<le> v)"
  shows "r \<notin> set (rows out) \<and> cell_lt NA k = Inr False \<and> cell_gt NA k = Inr False"
proof -
  have "\<not> outlier_row t r"
    using te hu ws
    by (auto simp: outlier_row_def value_below_def value_above_def cell_value_def)
  then show ?thesis
    using detectar_outliers_Inr [OF wf ok] by simp
qed

text \<open>Claim C7, on the table of the unit test: rows 1 and 2 are returned.\<close>

theorem detectar_outliers_subset_witness:
  "wf_table ejemplo_outliers
   \<and> numeric_column ejemplo_outliers ''temperature''
   \<and> numeric_column ejemplo_outliers ''humidity''
   \<and> numeric_column ejemplo_outliers ''wind_speed''
   \<and> detectar_outliers ejemplo_outliers =
       Inr \<lparr>columns = [''temperature'', ''humidity'', ''wind_speed''],
            rows = [(1, [Float (- 15), Integer 68, Integer (- 5)]),
                    (2, [Float 55, Integer 101, Integer 15])]\<rparr>"
proof -
  have wf: "wf_table ejemplo_outliers"
    by (simp add: wf_table_def ejemplo_outliers_def)
  have nt: "numeric_column ejemplo_outliers ''temperature''"
    and nh: "numeric_column ejemplo_outliers ''humidity''"
    and nw: "numeric_column ejemplo_outliers ''wind_speed''"
    by (simp_all add: numeric_column_def ejemplo_outliers_def cell_of_def is_numeric_def)
  have "filter (outlier_row ejemplo_outliers) (rows ejemplo_outliers) =
          [(1, [Float (- 15), Integer 68, Integer (- 5)]), (2, [Float 55, Integer 101, Integer 15])]"
    by (simp add: ejemplo_outliers_def outlier_row_def cell_value_def cell_of_def
        value_below_def value_above_def)
  with detectar_outliers_subset [OF wf nt nh nw] wf nt nh nw show ?thesis
    by (simp add: ejemplo_outliers_def)
qed

text \<open>Claim C10, on a table with missing measurements.\<close>

theorem detectar_outliers_missing_not_flagged_witness:
  "wf_table ejemplo_faltantes
   \<and> detectar_outliers ejemplo_faltantes =
       Inr (ejemplo_faltantes\<lparr>rows := [(1, [Float (- 15), NA, NA])]\<rparr>)
   \<and> (0, [NA, Integer 50, NA]) \<in> set (rows ejemplo_faltantes)
   \<and> cell_of ejemplo_faltantes (0, [NA, Integer 50, NA]) ''temperature'' = Some NA
   \<and> cell_value ejemplo_faltantes (0, [NA, Integer 50, NA]) ''humidity'' = Some 50
   \<and> cell_of ejemplo_faltantes (0, [NA, Integer 50, NA]) ''wind_speed'' = Some NA
   \<and> (0, [NA, Integer 50, NA]) \<notin> set (rows (ejemplo_faltantes\<lparr>rows := [(1, [Float (- 15), NA, NA])]\<rparr>))"
proof -
  let ?r = "(0, [NA, Integer 50, NA]) :: row"
  have wf: "wf_table ejemplo_faltantes"
    by (simp add: wf_table_def ejemplo_faltantes_def)
  have ok: "detectar_outliers ejemplo_faltantes =
       Inr (ejemplo_faltantes\<lparr>rows := [(1, [Float (- 15), NA, NA])]\<rparr>)"
    by (simp add: detectar_outliers_def bind_err_def getitem_def series_lt_def series_gt_def
        series_or_def boolean_index_def ejemplo_faltantes_def)
  have r: "?r \<in> set (rows ejemplo_faltantes)"
    by (simp add: ejemplo_faltantes_def)
  have te: "cell_of ejemplo_faltantes ?r ''temperature'' = Some NA"
    and hu: "cell_value ejemplo_faltantes ?r ''humidity'' = Some 50"
    and ws: "cell_of ejemplo_faltantes ?r ''wind_speed'' = Some NA"
    by (simp_all add: cell_of_def cell_value_def ejemplo_faltantes_def)
  have hu': "cell_of ejemplo_faltantes ?r ''humidity'' = Some NA \<or>
       (\<exists>v. cell_value ejemplo_faltantes ?r ''humidity'' = Some v \<and> 0 \<le> v \<and> v \<le> 100)"
    using hu by simp
  from detectar_outliers_missing_not_flagged [OF wf ok r disjI1 [OF te] hu' disjI1 [OF ws]]
    wf ok r te hu ws
  show ?thesis by blast
qed

section \<open>Column operations\<close>

lemma map_of_zip_update:
  "index_of n cs = Some i \<Longrightarrow> length vs = length cs \<Longrightarrow>
   map_of (zip cs (vs[i := v])) m = (if m = n then Some v else map_of (zip cs vs) m)"
proof (induction cs arbitrary: vs i)
  case Nil
  then show ?case by simp
next
  case (Cons c cs)
  then show ?case
    by (cases vs) (auto split: if_splits)
qed

lemma map_of_zip_snoc:
  "n \<notin> set cs \<Longrightarrow> length vs = length cs \<Longrightarrow>
   map_of (zip (cs @ [n]) (vs @ [v])) m = (if m = n then Some v else map_of (zip cs vs) m)"
proof (induction cs arbitrary: vs)
  case Nil
  then show ?case by simp
next
  case (Cons c cs)
  then show ?case by (cases vs) auto
qed

lemma columns_setitem:
  "columns (setitem t n vals) = (if n \<in> set (columns t) then columns t else columns t @ [n])"
  using index_of_None [of n "columns t"]
  by (auto simp: setitem_def split: option.splits)

lemma length_rows_setitem:
  "length vals = length (rows t) \<Longrightarrow> length (rows (setitem t n vals)) = length (rows t)"
  by (simp add: setitem_def split: option.splits)

lemma wf_table_setitem: "wf_table t \<Longrightarrow> wf_table (setitem t n vals)"
  using index_of_None [of n "columns t"]
  by (auto simp: wf_table_def setitem_def list_all_iff split: option.splits dest!: set_zip_leftD)

lemma row_setitem:
  assumes wf: "wf_table t" and len: "length vals = length (rows t)" and i: "i < length (rows t)"
  shows "fst (rows (setitem t n vals) ! i) = fst (rows t ! i)"
    and "cell_of (setitem t n vals) (rows (setitem t n vals) ! i) m =
           (if m = n then Some (vals ! i) else cell_of t (rows t ! i) m)"
proof -
  have r: "length (snd (rows t ! i)) = length (columns t)"
    using wf i by (simp add: wf_table_row)
  show "fst (rows (setitem t n vals) ! i) = fst (rows t ! i)"
    using len i by (simp add: setitem_def split: option.splits)
  show "cell_of (setitem t n vals) (rows (setitem t n vals) ! i) m =
           (if m = n then Some (vals ! i) else cell_of t (rows t ! i) m)"
  proof (cases "index_of n (columns t)")
    case None
    then have nin: "n \<notin> set (columns t)" by (simp add: index_of_None)
    have cols: "columns (setitem t n vals) = columns t @ [n]"
      using None by (simp add: setitem_def)
    have row: "snd (rows (setitem t n vals) ! i) = snd (rows t ! i) @ [vals ! i]"
      using None len i by (simp add: setitem_def)
    show ?thesis
      unfolding cell_of_def cols row by (rule map_of_zip_snoc [OF nin r])
  next
    case (Some j)
    have cols: "columns (setitem t n vals) = columns t"
      using Some by (simp add: setitem_def)
    have row: "snd (rows (setitem t n vals) ! i) = (snd (rows t ! i))[j := vals ! i]"
      using Some len i by (simp add: setitem_def)
    show ?thesis
      unfolding cell_of_def cols row by (rule map_of_zip_update [OF Some r])
  qed
qed

lemma getitem_nth:
  assumes wf: "wf_table t" and g: "getitem t n = Inr xs"
  shows "length xs = length (rows t)"
    and "i < length (rows t) \<Longrightarrow> cell_of t (rows t ! i) n = Some (xs ! i)"
proof -
  have xs: "xs = map (\<lambda>r. the (cell_of t r n)) (rows t)" and n: "n \<in> set (columns t)"
    using getitem_Inr [OF wf g] by simp_all
  show "length xs = length (rows t)" by (simp add: xs)
  show "cell_of t (rows t ! i) n = Some (xs ! i)" if "i < length (rows t)"
    using cell_of_present [OF wf n, of "rows t ! i"] that by (auto simp: xs)
qed

lemma length_series_map: "length (series_map d xs) = length xs"
  by (simp add: series_map_def)

lemma nth_series_map: "i < length xs \<Longrightarrow> series_map d xs ! i = lookup_cell d (xs ! i)"
  by (simp add: series_map_def)

lemma lookup_cell_Str:
  "map_of d k = Some v \<Longrightarrow> lookup_cell d (Str k) = v"
  "map_of d k = None \<Longrightarrow> lookup_cell d (Str k) = NA"
  by (simp_all add: lookup_cell_def)

lemma lookup_cell_unknown: "c \<notin> Str ` fst ` set d \<Longrightarrow> lookup_cell d c = NA"
proof (cases c)
  case (Str k)
  assume "c \<notin> Str ` fst ` set d"
  with Str have "k \<notin> fst ` set d" by auto
  then have "map_of d k = None" by (simp add: map_of_eq_None_iff)
  with Str show ?thesis by (simp add: lookup_cell_def)
qed (simp_all add: lookup_cell_def)

lemma compass_lookup:
  "(code, name, deg) \<in> set [(''N'', ''north'', 0), (''NE'', ''northeast'', 45),
      (''E'', ''east'', 90), (''SE'', ''southeast'', 135), (''S'', ''south'', 180),
      (''SO'', ''southwest'', 225), (''O'', ''west'', 270), (''NO'', ''northwest'', 315)] \<Longrightarrow>
   map_of wind_direction_completo code = Some (Str name) \<and>
   map_of wind_direction_grados code = Some (Float deg) \<and> 0 \<le> deg \<and> deg < 360"
  unfolding wind_direction_completo_def wind_direction_grados_def
  by (elim disjE conjE | simp)+

lemma compass_inj:
  assumes "ci \<in> set [''N'', ''NE'', ''E'', ''SE'', ''S'', ''SO'', ''O'', ''NO'']"
    and "cj \<in> set [''N'', ''NE'', ''E'', ''SE'', ''S'', ''SO'', ''O'', ''NO'']"
    and "map_of wind_direction_completo ci = map_of wind_direction_completo cj"
  shows "ci = cj"
proof -
  have n: "map_of wind_direction_completo ''N'' = Some (Str ''north'')"
    "map_of wind_direction_completo ''NE'' = Some (Str ''northeast'')"
    "map_of wind_direction_completo ''E'' = Some (Str ''east'')"
    "map_of wind_direction_completo ''SE'' = Some (Str ''southeast'')"
    "map_of wind_direction_completo ''S'' = Some (Str ''south'')"
    "map_of wind_direction_completo ''SO'' = Some (Str ''southwest'')"
    "map_of wind_direction_completo ''O'' = Some (Str ''west'')"
    "map_of wind_direction_completo ''NO'' = Some (Str ''northwest'')"
    by (simp_all add: wind_direction_completo_def)
  from assms(1) have "ci = ''N'' \<or> ci = ''NE'' \<or> ci = ''E'' \<or> ci = ''SE'' \<or> ci = ''S''
      \<or> ci = ''SO'' \<or> ci = ''O'' \<or> ci = ''NO''" by simp
  moreover from assms(2) have "cj = ''N'' \<or> cj = ''NE'' \<or> cj = ''E'' \<or> cj = ''SE'' \<or> cj = ''S''
      \<or> cj = ''SO'' \<or> cj = ''O'' \<or> cj = ''NO''" by simp
  ultimately show ?thesis
    using assms(3) by (elim disjE) (simp_all add: n)
qed

lemma compass_defined:
  assumes "ci \<in> set [''N'', ''NE'', ''E'', ''SE'', ''S'', ''SO'', ''O'', ''NO'']"
  shows "\<exists>v. map_of wind_direction_completo ci = Some v"
proof -
  from assms have "ci = ''N'' \<or> ci = ''NE'' \<or> ci = ''E'' \<or> ci = ''SE'' \<or> ci = ''S''
      \<or> ci = ''SO'' \<or> ci = ''O'' \<or> ci = ''NO''" by simp
  then show ?thesis
    by (elim disjE) (simp_all add: wind_direction_completo_def)
qed

lemma calm_lookup:
  "map_of wind_direction_completo ''C'' = Some (Str ''calm'')"
  "map_of wind_direction_grados ''C'' = Some NA"
  by (simp_all add: wind_direction_completo_def wind_direction_grados_def)



lemma rows_kept_trans:
  "rows_kept S t u \<Longrightarrow> rows_kept S' u v \<Longrightarrow> rows_kept (S \<union> S') t v"
  by (simp add: rows_kept_def)

lemma rows_kept_mono: "rows_kept S t u \<Longrightarrow> S \<subseteq> S' \<Longrightarrow> rows_kept S' t u"
  by (auto simp: rows_kept_def)

lemma rows_kept_cell:
  "rows_kept S t u \<Longrightarrow> i < length (rows t) \<Longrightarrow> m \<notin> S \<Longrightarrow>
   cell_of u (rows u ! i) m = cell_of t (rows t ! i) m"
  by (simp add: rows_kept_def)

lemma rows_kept_setitem:
  assumes "wf_table t" and "length vals = length (rows t)"
  shows "rows_kept {n} t (setitem t n vals)"
  unfolding rows_kept_def
  using assms by (simp add: wf_table_setitem length_rows_setitem row_setitem)

lemma getitem_length: "getitem t n = Inr xs \<Longrightarrow> length xs = length (rows t) \<and> n \<in> set (columns t)"
  using index_of_None [of n "columns t"]
  by (auto simp: getitem_def split: option.splits)

lemma mapM_length: "mapM f xs = Inr ys \<Longrightarrow> length ys = length xs"
  unfolding mapM_Inr_iff by (drule arg_cong [where f = length]) simp

lemma mapM_nth:
  assumes "mapM f xs = Inr ys" and "i < length xs"
  shows "f (xs ! i) = Inr (ys ! i)"
proof -
  have m: "map f xs = map Inr ys" using assms(1) by (simp add: mapM_Inr_iff)
  have l: "length ys = length xs" using assms(1) by (rule mapM_length)
  have "map f xs ! i = map Inr ys ! i" by (simp add: m)
  with assms(2) l show ?thesis by simp
qed

lemma to_datetime_length: "to_datetime xs = Inr ys \<Longrightarrow> length ys = length xs"
  by (auto simp: to_datetime_def bind_err_Inr_iff dest: mapM_length
      split: option.splits cell.splits)

lemma astype_str_length: "astype_str xs = Inr ys \<Longrightarrow> length ys = length xs"
  by (auto simp: astype_str_def dest: mapM_length split: if_splits)

text \<open>Removing columns.\<close>

lemma map_of_zip_filter:
  "length vs = length cs \<Longrightarrow>
   map_of (zip (filter P cs) (map snd (filter (\<lambda>(c, v). P c) (zip cs vs)))) m =
     (if P m then map_of (zip cs vs) m else None)"
proof (induction cs arbitrary: vs)
  case Nil
  then show ?case by simp
next
  case (Cons c cs)
  then show ?case by (cases vs) auto
qed

lemma length_filter_zip:
  "length vs = length cs \<Longrightarrow>
   length (filter (\<lambda>(c, v). P c) (zip cs vs)) = length (filter P cs)"
proof (induction cs arbitrary: vs)
  case Nil
  then show ?case by simp
next
  case (Cons c cs)
  then show ?case by (cases vs) auto
qed

lemma drop_columns_Inr:
  assumes wf: "wf_table t" and d: "drop_columns t names = Inr u"
  shows "rows_kept (set names) t u"
    and "columns u = filter (\<lambda>c. c \<notin> set names) (columns t)"
    and "i < length (rows t) \<Longrightarrow> m \<in> set names \<Longrightarrow> cell_of u (rows u ! i) m = None"
proof -
  from d have u: "u = \<lparr>columns = filter (\<lambda>c. c \<notin> set names) (columns t),
                rows = map (\<lambda>r. (fst r,
                   map snd (filter (\<lambda>(c, v). c \<notin> set names) (zip (columns t) (snd r)))))
                   (rows t)\<rparr>"
    by (simp add: drop_columns_def split: if_splits)
  show "columns u = filter (\<lambda>c. c \<notin> set names) (columns t)" by (simp add: u)
  have wfu: "wf_table u"
    using wf by (auto simp: u wf_table_def list_all_iff length_filter_zip)
  have cell: "cell_of u (rows u ! i) m =
      (if m \<notin> set names then cell_of t (rows t ! i) m else None)" if "i < length (rows t)" for i m
    using that wf_table_row [OF wf, of "rows t ! i"]
    by (simp add: u cell_of_def map_of_zip_filter)
  from cell show "i < length (rows t) \<Longrightarrow> m \<in> set names \<Longrightarrow> cell_of u (rows u ! i) m = None"
    by simp
  show "rows_kept (set names) t u"
    unfolding rows_kept_def using wfu cell by (simp add: u)
qed

lemma insert_first_Inr:
  assumes wf: "wf_table t" and len: "length vals = length (rows t)"
    and ins: "insert_first t n vals = Inr u"
  shows "rows_kept {n} t u"
    and "columns u = n # columns t"
    and "i < length (rows t) \<Longrightarrow> cell_of u (rows u ! i) n = Some (vals ! i)"
proof -
  from ins have nin: "n \<notin> set (columns t)"
    and u: "u = \<lparr>columns = n # columns t,
                rows = map (\<lambda>(r, v). (fst r, v # snd r)) (zip (rows t) vals)\<rparr>"
    by (simp_all add: insert_first_def split: if_splits)
  show "columns u = n # columns t" by (simp add: u)
  have wfu: "wf_table u"
    using wf nin by (auto simp: u wf_table_def list_all_iff dest!: set_zip_leftD)
  show "i < length (rows t) \<Longrightarrow> cell_of u (rows u ! i) n = Some (vals ! i)"
    using len by (simp add: u cell_of_def)
  show "rows_kept {n} t u"
    unfolding rows_kept_def using wfu len by (simp add: u cell_of_def)
qed

lemma rows_kept_then:
  assumes "rows_kept S t u" and "rows_kept S' u v" and "S \<subseteq> T" and "S' \<subseteq> T"
  shows "rows_kept T t v"
proof -
  have "rows_kept (S \<union> S') t v" using assms(1,2) by (rule rows_kept_trans)
  then show ?thesis by (rule rows_kept_mono) (use assms(3,4) in auto)
qed

lemma rows_kept_length: "rows_kept S t u \<Longrightarrow> length (rows u) = length (rows t)"
  by (simp add: rows_kept_def)

lemma rows_kept_wf: "rows_kept S t u \<Longrightarrow> wf_table u"
  by (simp add: rows_kept_def)

lemma rows_kept_label:
  "rows_kept S t u \<Longrightarrow> i < length (rows t) \<Longrightarrow> fst (rows u ! i) = fst (rows t ! i)"
  by (simp add: rows_kept_def)

lemma convert_column_Inr:
  assumes wf: "wf_table t" and c: "convert_column t n conv = Inr u"
    and len: "\<And>xs ys. conv xs = Inr ys \<Longrightarrow> length ys = length xs"
  shows "rows_kept {n} t u" and "columns u = columns t"
proof -
  from c obtain xs ys where g: "getitem t n = Inr xs" and cv: "conv xs = Inr ys"
    and u: "u = setitem t n ys"
    unfolding convert_column_def bind_err_Inr_iff by blast
  have l: "length ys = length (rows t)" and n: "n \<in> set (columns t)"
    using getitem_length [OF g] len [OF cv] by simp_all
  show "rows_kept {n} t u" unfolding u using wf l by (rule rows_kept_setitem)
  show "columns u = columns t" using n by (simp add: u columns_setitem)
qed

lemma convert_column_cell:
  assumes wf: "wf_table t" and c: "convert_column t n (mapM f) = Inr u"
    and i: "i < length (rows t)"
  shows "\<exists>x y. cell_of t (rows t ! i) n = Some x \<and> cell_of u (rows u ! i) n = Some y
           \<and> f x = Inr y"
proof -
  from c obtain xs ys where g: "getitem t n = Inr xs" and cv: "mapM f xs = Inr ys"
    and u: "u = setitem t n ys"
    unfolding convert_column_def bind_err_Inr_iff by blast
  have lx: "length xs = length (rows t)" using getitem_length [OF g] by simp
  have l: "length ys = length (rows t)" using mapM_length [OF cv] lx by simp
  have "cell_of t (rows t ! i) n = Some (xs ! i)"
    using getitem_nth(2) [OF wf g i] .
  moreover have "cell_of u (rows u ! i) n = Some (ys ! i)"
    unfolding u using row_setitem(2) [OF wf l i, of n n] by simp
  moreover have "f (xs ! i) = Inr (ys ! i)"
    using mapM_nth [OF cv] i lx by simp
  ultimately show ?thesis by blast
qed

lemma convertir_tipos_datos_Inr:
  assumes wf: "wf_table t" and c: "convertir_tipos_datos t = Inr u"
  shows "rows_kept {''date'', ''hour'', ''temperature'', ''humidity'', ''wind_speed'',
           ''wind_direction_grados''} t u"
    and "columns u = columns t"
    and "i < length (rows t) \<Longrightarrow> ''wind_direction_grados'' \<in> set (columns t) \<Longrightarrow>
           \<exists>x y. cell_of t (rows t ! i) ''wind_direction_grados'' = Some x
                 \<and> cell_of u (rows u ! i) ''wind_direction_grados'' = Some y
                 \<and> float_cell x = Inr y"
proof -
  let ?S = "{''date'', ''hour'', ''temperature'', ''humidity'', ''wind_speed'',
           ''wind_direction_grados''}"
  from c obtain t1 t2 t3 t4 t5 where
    c1: "convert_column t ''date'' to_datetime = Inr t1"
    and c2: "convert_column t1 ''hour'' (mapM format_hour) = Inr t2"
    and c3: "convert_column t2 ''temperature'' astype_float = Inr t3"
    and c4: "convert_column t3 ''humidity'' astype_float = Inr t4"
    and c5: "convert_column t4 ''wind_speed'' astype_float = Inr t5"
    and c6: "(if ''wind_direction_grados'' \<in> set (columns t5)
              then convert_column t5 ''wind_direction_grados'' astype_float
              else Inr t5) = Inr u"
    unfolding convertir_tipos_datos_def Let_def bind_err_Inr_iff by blast
  have fl: "\<And>xs ys. astype_float xs = Inr ys \<Longrightarrow> length ys = length xs"
    unfolding astype_float_def by (rule mapM_length)
  have k1: "rows_kept {''date''} t t1" and o1: "columns t1 = columns t"
    using convert_column_Inr [OF wf c1 to_datetime_length] by simp_all
  have wf1: "wf_table t1" using k1 by (rule rows_kept_wf)
  have k2: "rows_kept {''hour''} t1 t2" and o2: "columns t2 = columns t1"
    using convert_column_Inr [OF wf1 c2 mapM_length] by simp_all
  have wf2: "wf_table t2" using k2 by (rule rows_kept_wf)
  have k3: "rows_kept {''temperature''} t2 t3" and o3: "columns t3 = columns t2"
    using convert_column_Inr [OF wf2 c3 fl] by simp_all
  have wf3: "wf_table t3" using k3 by (rule rows_kept_wf)
  have k4: "rows_kept {''humidity''} t3 t4" and o4: "columns t4 = columns t3"
    using convert_column_Inr [OF wf3 c4 fl] by simp_all
  have wf4: "wf_table t4" using k4 by (rule rows_kept_wf)
  have k5: "rows_kept {''wind_speed''} t4 t5" and o5: "columns t5 = columns t4"
    using convert_column_Inr [OF wf4 c5 fl] by simp_all
  have wf5: "wf_table t5" using k5 by (rule rows_kept_wf)
  have k12: "rows_kept {''date'', ''hour''} t t2"
    using k1 k2 by (rule rows_kept_then) simp_all
  have k13: "rows_kept {''date'', ''hour'', ''temperature''} t t3"
    using k12 k3 by (rule rows_kept_then) simp_all
  have k14: "rows_kept {''date'', ''hour'', ''temperature'', ''humidity''} t t4"
    using k13 k4 by (rule rows_kept_then) simp_all
  have k15: "rows_kept {''date'', ''hour'', ''temperature'', ''humidity'', ''wind_speed''} t t5"
    using k14 k5 by (rule rows_kept_then) simp_all
  have cols5: "columns t5 = columns t"
    by (simp only: o1 o2 o3 o4 o5)
  have len5: "length (rows t5) = length (rows t)"
    using k15 by (rule rows_kept_length)
  show "rows_kept ?S t u"
  proof (cases "''wind_direction_grados'' \<in> set (columns t)")
    case False
    with c6 cols5 have "u = t5" by simp
    with k15 show ?thesis by (simp add: rows_kept_mono [where S' = ?S])
  next
    case True
    with c6 cols5 have "convert_column t5 ''wind_direction_grados'' astype_float = Inr u"
      by simp
    from convert_column_Inr(1) [OF wf5 this fl] have "rows_kept {''wind_direction_grados''} t5 u" .
    with k15 show ?thesis by (rule rows_kept_then) simp_all
  qed
  show "columns u = columns t"
  proof (cases "''wind_direction_grados'' \<in> set (columns t)")
    case False
    with c6 cols5 have "u = t5" by simp
    with cols5 show ?thesis by simp
  next
    case True
    with c6 cols5 have "convert_column t5 ''wind_direction_grados'' astype_float = Inr u"
      by simp
    from convert_column_Inr(2) [OF wf5 this fl] cols5 show ?thesis by simp
  qed
  show "\<exists>x y. cell_of t (rows t ! i) ''wind_direction_grados'' = Some x
                 \<and> cell_of u (rows u ! i) ''wind_direction_grados'' = Some y
                 \<and> float_cell x = Inr y"
    if i: "i < length (rows t)" and True: "''wind_direction_grados'' \<in> set (columns t)"
  proof -
    from True c6 cols5
    have "convert_column t5 ''wind_direction_grados'' (mapM float_cell) = Inr u"
      by (simp add: astype_float_def [abs_def])
    moreover have "i < length (rows t5)" using i len5 by simp
    ultimately obtain x y where
      "cell_of t5 (rows t5 ! i) ''wind_direction_grados'' = Some x"
      "cell_of u (rows u ! i) ''wind_direction_grados'' = Some y" "float_cell x = Inr y"
      using convert_column_cell [OF wf5] by blast
    moreover have "cell_of t5 (rows t5 ! i) ''wind_direction_grados'' =
          cell_of t (rows t ! i) ''wind_direction_grados''"
      using rows_kept_cell [OF k15 i] by simp
    ultimately show ?thesis by simp
  qed
qed

lemma unificar_fecha_hora_Inr:
  assumes wf: "wf_table t" and c: "unificar_fecha_hora t = Inr u"
  shows "rows_kept {''datetime''} t u"
    and "columns u = (if ''datetime'' \<in> set (columns t) then columns t
                      else columns t @ [''datetime''])"
proof -
  from c obtain d ds h hs dt where
    g1: "getitem t ''date'' = Inr d" and c1: "astype_str d = Inr ds"
    and g2: "getitem t ''hour'' = Inr h" and c2: "astype_str h = Inr hs"
    and c3: "to_datetime (map (\<lambda>(a, b). Str (a @ '' '' @ b)) (zip ds hs)) = Inr dt"
    and u: "u = setitem t ''datetime'' dt"
    unfolding unificar_fecha_hora_def Let_def bind_err_Inr_iff by blast
  have "length dt = length (rows t)"
    using to_datetime_length [OF c3] astype_str_length [OF c1] astype_str_length [OF c2]
      getitem_length [OF g1] getitem_length [OF g2] by simp
  then show "rows_kept {''datetime''} t u"
    unfolding u using wf by (intro rows_kept_setitem)
  show "columns u = (if ''datetime'' \<in> set (columns t) then columns t
                      else columns t @ [''datetime''])"
    by (simp add: u columns_setitem)
qed

lemma marcar_estado_viento_Inr:
  assumes wf: "wf_table t" and c: "marcar_estado_viento t = Inr u"
  shows "rows_kept {''wind_status''} t u"
    and "columns u = (if ''wind_status'' \<in> set (columns t) then columns t
                      else columns t @ [''wind_status''])"
    and "i < length (rows t) \<Longrightarrow> \<exists>x. cell_of t (rows t ! i) ''wind_direction_degrees'' = Some x
           \<and> cell_of u (rows u ! i) ''wind_status'' =
               Some (if isna x then Str ''calm'' else Str ''with wind'')"
proof -
  from c obtain xs where
    g: "getitem t ''wind_direction_degrees'' = Inr xs"
    and u: "u = setitem t ''wind_status''
                 (map (\<lambda>x. if isna x then Str ''calm'' else Str ''with wind'') xs)"
    unfolding marcar_estado_viento_def Let_def bind_err_Inr_iff by blast
  have l: "length (map (\<lambda>x. if isna x then Str ''calm'' else Str ''with wind'') xs)
      = length (rows t)"
    using getitem_length [OF g] by simp
  show "rows_kept {''wind_status''} t u"
    unfolding u using wf l by (rule rows_kept_setitem)
  show "columns u = (if ''wind_status'' \<in> set (columns t) then columns t
                      else columns t @ [''wind_status''])"
    by (simp add: u columns_setitem)
  show "\<exists>x. cell_of t (rows t ! i) ''wind_direction_degrees'' = Some x
           \<and> cell_of u (rows u ! i) ''wind_status'' =
               Some (if isna x then Str ''calm'' else Str ''with wind'')"
    if i: "i < length (rows t)"
  proof -
    have ix: "i < length xs" using getitem_length [OF g] i by simp
    have "cell_of t (rows t ! i) ''wind_direction_degrees'' = Some (xs ! i)"
      using getitem_nth(2) [OF wf g i] .
    moreover have "cell_of u (rows u ! i) ''wind_status'' =
        Some (if isna (xs ! i) then Str ''calm'' else Str ''with wind'')"
      unfolding u using row_setitem(2) [OF wf l i, of "''wind_status''" "''wind_status''"] ix
      by simp
    ultimately show ?thesis by blast
  qed
qed

text \<open>Columns of each stage.\<close>

lemma columns_traducir_direccion_viento:
  "traducir_direccion_viento t = Inr u \<Longrightarrow>
   columns u = columns (setitem (setitem t ''wind_direction_completo'' [])
                          ''wind_direction_grados'' [])"
  by (auto simp: traducir_direccion_viento_def Let_def bind_err_Inr_iff columns_setitem)

lemma columns_traducir_condicion_cielo:
  "traducir_condicion_cielo t = Inr u \<Longrightarrow>
   columns u = columns (setitem t ''sky_condition_ingles'' [])"
  by (auto simp: traducir_condicion_cielo_def Let_def bind_err_Inr_iff columns_setitem)

lemma columns_drop_columns:
  "drop_columns t names = Inr u \<Longrightarrow> columns u = filter (\<lambda>c. c \<notin> set names) (columns t)"
  by (auto simp: drop_columns_def split: if_splits)

lemma columns_convert_column: "convert_column t n conv = Inr u \<Longrightarrow> columns u = columns t"
  by (auto simp: convert_column_def bind_err_Inr_iff columns_setitem dest: getitem_length)

lemma columns_convertir_tipos_datos:
  assumes "convertir_tipos_datos t = Inr u"
  shows "columns u = columns t"
proof -
  from assms obtain t1 t2 t3 t4 t5 where
    c1: "convert_column t ''date'' to_datetime = Inr t1"
    and c2: "convert_column t1 ''hour'' (mapM format_hour) = Inr t2"
    and c3: "convert_column t2 ''temperature'' astype_float = Inr t3"
    and c4: "convert_column t3 ''humidity'' astype_float = Inr t4"
    and c5: "convert_column t4 ''wind_speed'' astype_float = Inr t5"
    and c6: "(if ''wind_direction_grados'' \<in> set (columns t5)
              then convert_column t5 ''wind_direction_grados'' astype_float
              else Inr t5) = Inr u"
    unfolding convertir_tipos_datos_def Let_def bind_err_Inr_iff by blast
  have "columns u = columns t5"
    using c6 by (auto dest: columns_convert_column split: if_splits)
  then show ?thesis
    by (simp only: columns_convert_column [OF c1] columns_convert_column [OF c2]
        columns_convert_column [OF c3] columns_convert_column [OF c4]
        columns_convert_column [OF c5])
qed

lemma columns_unificar_fecha_hora:
  "unificar_fecha_hora t = Inr u \<Longrightarrow> columns u = columns (setitem t ''datetime'' [])"
  by (auto simp: unificar_fecha_hora_def Let_def bind_err_Inr_iff columns_setitem)

lemma columns_marcar_estado_viento:
  "marcar_estado_viento t = Inr u \<Longrightarrow> columns u = columns (setitem t ''wind_status'' [])"
  by (auto simp: marcar_estado_viento_def Let_def bind_err_Inr_iff columns_setitem)

lemma columns_pop:
  "pop t n = Inr (c, u) \<Longrightarrow> columns u = filter (\<lambda>x. x \<noteq> n) (columns t)"
  by (auto simp: pop_def bind_err_Inr_iff dest: columns_drop_columns)

lemma columns_insert_first: "insert_first t n vals = Inr u \<Longrightarrow> columns u = n # columns t"
  by (auto simp: insert_first_def split: if_splits)

lemma columns_normalizar:
  "columns (normalizar_nombres_columnas t d) =
     map (\<lambda>c. case map_of d (lower c) of Some n \<Rightarrow> n | None \<Rightarrow> lower c) (columns t)"
  by (simp add: normalizar_nombres_columnas_def Let_def rename_columns_def)

lemma columns_verificar_duplicados: "columns (fst (verificar_duplicados t)) = columns t"
  by (simp add: verificar_duplicados_def Let_def columns_drop_duplicates)

lemma lower_names:
  "lower ''datetime'' = ''datetime''" "lower ''temperature'' = ''temperature''"
  "lower ''humidity'' = ''humidity''" "lower ''wind_speed'' = ''wind_speed''"
  "lower ''wind_direction_completo'' = ''wind_direction_completo''"
  "lower ''wind_direction_grados'' = ''wind_direction_grados''"
  "lower ''sky_condition_ingles'' = ''sky_condition_ingles''"
  by (simp_all add: lower_def lower_char_def)


lemma traducir_direccion_viento_Inr:
  assumes wf: "wf_table t" and eq: "traducir_direccion_viento t = Inr u"
  shows "rows_kept {''wind_direction_completo'', ''wind_direction_grados''} t u"
    and "i < length (rows t) \<Longrightarrow> \<exists>c.
           cell_of t (rows t ! i) ''wind_direction'' = Some c
         \<and> cell_of u (rows u ! i) ''wind_direction_completo'' =
             Some (lookup_cell wind_direction_completo c)
         \<and> cell_of u (rows u ! i) ''wind_direction_grados'' =
             Some (lookup_cell wind_direction_grados c)"
proof -
  from eq obtain w where g: "getitem t ''wind_direction'' = Inr w"
    and u: "u = setitem (setitem t ''wind_direction_completo''
                           (series_map wind_direction_completo w))
                  ''wind_direction_grados'' (series_map wind_direction_grados w)"
    unfolding traducir_direccion_viento_def Let_def bind_err_Inr_iff by auto
  define t1 where "t1 = setitem t ''wind_direction_completo''
                           (series_map wind_direction_completo w)"
  have u1: "u = setitem t1 ''wind_direction_grados'' (series_map wind_direction_grados w)"
    by (simp add: u t1_def)
  have lw: "length w = length (rows t)" using getitem_length [OF g] by simp
  have l0: "length (series_map wind_direction_completo w) = length (rows t)"
    by (simp add: length_series_map lw)
  have k1: "rows_kept {''wind_direction_completo''} t t1"
    unfolding t1_def using wf l0 by (rule rows_kept_setitem)
  have wf1: "wf_table t1" using k1 by (rule rows_kept_wf)
  have l1: "length (series_map wind_direction_grados w) = length (rows t1)"
    using rows_kept_length [OF k1] by (simp add: length_series_map lw)
  have k2: "rows_kept {''wind_direction_grados''} t1 u"
    unfolding u1 using wf1 l1 by (rule rows_kept_setitem)
  show "rows_kept {''wind_direction_completo'', ''wind_direction_grados''} t u"
    using k1 k2 by (rule rows_kept_then) simp_all
  show "\<exists>c. cell_of t (rows t ! i) ''wind_direction'' = Some c
         \<and> cell_of u (rows u ! i) ''wind_direction_completo'' =
             Some (lookup_cell wind_direction_completo c)
         \<and> cell_of u (rows u ! i) ''wind_direction_grados'' =
             Some (lookup_cell wind_direction_grados c)"
    if i: "i < length (rows t)"
  proof -
    have iw: "i < length w" using i lw by simp
    have i1: "i < length (rows t1)" using i rows_kept_length [OF k1] by simp
    have a: "cell_of t (rows t ! i) ''wind_direction'' = Some (w ! i)"
      using getitem_nth(2) [OF wf g i] .
    have b: "cell_of t1 (rows t1 ! i) ''wind_direction_completo'' =
        Some (lookup_cell wind_direction_completo (w ! i))"
      unfolding t1_def
      using row_setitem(2) [OF wf l0 i, of "''wind_direction_completo''"
          "''wind_direction_completo''"]
      by (simp add: nth_series_map [OF iw])
    have "cell_of u (rows u ! i) ''wind_direction_completo'' =
        cell_of t1 (rows t1 ! i) ''wind_direction_completo''"
      using rows_kept_cell [OF k2 i1] by simp
    with b have c: "cell_of u (rows u ! i) ''wind_direction_completo'' =
        Some (lookup_cell wind_direction_completo (w ! i))" by simp
    have d: "cell_of u (rows u ! i) ''wind_direction_grados'' =
        Some (lookup_cell wind_direction_grados (w ! i))"
      unfolding u1
      using row_setitem(2) [OF wf1 l1 i1, of "''wind_direction_grados''"
          "''wind_direction_grados''"]
      by (simp add: nth_series_map [OF iw])
    from a c d show ?thesis by blast
  qed
qed

lemma traducir_direccion_viento_total:
  "''wind_direction'' \<in> set (columns t) \<Longrightarrow> \<exists>u. traducir_direccion_viento t = Inr u"
  using getitem_present [of "''wind_direction''" t]
  by (auto simp: traducir_direccion_viento_def Let_def bind_err_def)

lemma traducir_condicion_cielo_Inr:
  assumes wf: "wf_table t" and eq: "traducir_condicion_cielo t = Inr u"
  shows "rows_kept {''sky_condition_ingles''} t u"
    and "i < length (rows t) \<Longrightarrow> \<exists>c.
           cell_of t (rows t ! i) ''sky_condition'' = Some c
         \<and> cell_of u (rows u ! i) ''sky_condition_ingles'' =
             Some (lookup_cell sky_condition_ingles c)"
proof -
  from eq obtain w where g: "getitem t ''sky_condition'' = Inr w"
    and u: "u = setitem t ''sky_condition_ingles'' (series_map sky_condition_ingles w)"
    unfolding traducir_condicion_cielo_def Let_def bind_err_Inr_iff by auto
  have lw: "length w = length (rows t)" using getitem_length [OF g] by simp
  have l0: "length (series_map sky_condition_ingles w) = length (rows t)"
    by (simp add: length_series_map lw)
  show "rows_kept {''sky_condition_ingles''} t u"
    unfolding u using wf l0 by (rule rows_kept_setitem)
  show "\<exists>c. cell_of t (rows t ! i) ''sky_condition'' = Some c
         \<and> cell_of u (rows u ! i) ''sky_condition_ingles'' =
             Some (lookup_cell sky_condition_ingles c)"
    if i: "i < length (rows t)"
  proof -
    have iw: "i < length w" using i lw by simp
    have a: "cell_of t (rows t ! i) ''sky_condition'' = Some (w ! i)"
      using getitem_nth(2) [OF wf g i] .
    have "cell_of u (rows u ! i) ''sky_condition_ingles'' =
        Some (lookup_cell sky_condition_ingles (w ! i))"
      unfolding u
      using row_setitem(2) [OF wf l0 i, of "''sky_condition_ingles''"
          "''sky_condition_ingles''"]
      by (simp add: nth_series_map [OF iw])
    with a show ?thesis by blast
  qed
qed

lemma traducir_condicion_cielo_total:
  "''sky_condition'' \<in> set (columns t) \<Longrightarrow> \<exists>u. traducir_condicion_cielo t = Inr u"
  using getitem_present [of "''sky_condition''" t]
  by (auto simp: traducir_condicion_cielo_def Let_def bind_err_def)

lemma pop_Inr:
  assumes wf: "wf_table t" and p: "pop t n = Inr (c, u)"
  shows "rows_kept {n} t u"
    and "length c = length (rows t)"
    and "i < length (rows t) \<Longrightarrow> cell_of t (rows t ! i) n = Some (c ! i)"
proof -
  from p have g: "getitem t n = Inr c" and d: "drop_columns t [n] = Inr u"
    by (auto simp: pop_def bind_err_Inr_iff)
  show "rows_kept {n} t u" using drop_columns_Inr(1) [OF wf d] by simp
  show "length c = length (rows t)" using getitem_length [OF g] by simp
  show "i < length (rows t) \<Longrightarrow> cell_of t (rows t ! i) n = Some (c ! i)"
    using getitem_nth(2) [OF wf g] .
qed

text \<open>Renaming the columns of the pipeline's frame.\<close>

lemma length_seven:
  "length xs = 7 \<Longrightarrow> \<exists>a b c d e f g. xs = [a, b, c, d, e, f, g]"
  by (auto simp: eval_nat_numeral length_Suc_conv)

lemma normalizar_limpieza:
  assumes wf: "wf_table t"
    and cols: "columns t = [''datetime'', ''temperature'', ''humidity'', ''wind_speed'',
      ''wind_direction_completo'', ''wind_direction_grados'', ''sky_condition_ingles'']"
  defines "u \<equiv> normalizar_nombres_columnas t renombres_limpieza"
  shows "wf_table u" and "rows u = rows t"
    and "r \<in> set (rows t) \<Longrightarrow>
          cell_of u r ''wind_direction'' = cell_of t r ''wind_direction_completo''
        \<and> cell_of u r ''wind_direction_degrees'' = cell_of t r ''wind_direction_grados''
        \<and> cell_of u r ''sky_condition'' = cell_of t r ''sky_condition_ingles''"
proof -
  have cu: "columns u = [''datetime'', ''temperature'', ''humidity'', ''wind_speed'',
       ''wind_direction'', ''wind_direction_degrees'', ''sky_condition'']"
    unfolding u_def by (simp add: columns_normalizar cols lower_names renombres_limpieza_def)
  show ru: "rows u = rows t"
    by (simp add: u_def normalizar_nombres_columnas_def Let_def rename_columns_def)
  show "wf_table u"
    using wf by (simp add: wf_table_def cu ru cols)
  show "cell_of u r ''wind_direction'' = cell_of t r ''wind_direction_completo''
        \<and> cell_of u r ''wind_direction_degrees'' = cell_of t r ''wind_direction_grados''
        \<and> cell_of u r ''sky_condition'' = cell_of t r ''sky_condition_ingles''"
    if r: "r \<in> set (rows t)"
  proof -
    have "length (snd r) = 7" using wf_table_row [OF wf r] by (simp add: cols)
    then obtain a b c d e f g where "snd r = [a, b, c, d, e, f, g]"
      using length_seven by blast
    then show ?thesis by (simp add: cell_of_def cu cols)
  qed
qed

section \<open>Properties of the translators\<close>

text \<open>
  Claim C4. On a table with a wind direction column \<open>traducir_direccion_viento\<close> returns
  a table with the same rows in which a row with one of the eight compass codes has the
  full English name and the degrees of that code, N = 0, NE = 45, E = 90, SE = 135,
  S = 180, SO = 225, O = 270, NO = 315, all in [0, 360); two different codes have
  different names; the code C has the name calm and missing degrees.
\<close>

theorem traducir_direccion_viento_compass:
  assumes wf: "wf_table t" and col: "''wind_direction'' \<in> set (columns t)"
  shows "\<exists>out. traducir_direccion_viento t = Inr out \<and> length (rows out) = length (rows t) \<and>
     (\<forall>i < length (rows t).
        fst (rows out ! i) = fst (rows t ! i) \<and>
        (\<forall>code name deg.
           (code, name, deg) \<in> set [(''N'', ''north'', 0), (''NE'', ''northeast'', 45),
              (''E'', ''east'', 90), (''SE'', ''southeast'', 135), (''S'', ''south'', 180),
              (''SO'', ''southwest'', 225), (''O'', ''west'', 270), (''NO'', ''northwest'', 315)]
           \<and> cell_of t (rows t ! i) ''wind_direction'' = Some (Str code) \<longrightarrow>
             cell_of out (rows out ! i) ''wind_direction_completo'' = Some (Str name) \<and>
             cell_of out (rows out ! i) ''wind_direction_grados'' = Some (Float deg) \<and>
             0 \<le> deg \<and> deg < 360) \<and>
        (cell_of t (rows t ! i) ''wind_direction'' = Some (Str ''C'') \<longrightarrow>
             cell_of out (rows out ! i) ''wind_direction_completo'' = Some (Str ''calm'') \<and>
             cell_of out (rows out ! i) ''wind_direction_grados'' = Some NA)) \<and>
     (\<forall>i < length (rows t). \<forall>j < length (rows t). \<forall>ci cj.
        cell_of t (rows t ! i) ''wind_direction'' = Some (Str ci) \<and>
        cell_of t (rows t ! j) ''wind_direction'' = Some (Str cj) \<and>
        ci \<in> set [''N'', ''NE'', ''E'', ''SE'', ''S'', ''SO'', ''O'', ''NO''] \<and>
        cj \<in> set [''N'', ''NE'', ''E'', ''SE'', ''S'', ''SO'', ''O'', ''NO''] \<and> ci \<noteq> cj \<longrightarrow>
        cell_of out (rows out ! i) ''wind_direction_completo'' \<noteq>
        cell_of out (rows out ! j) ''wind_direction_completo'')"
proof -
  from traducir_direccion_viento_total [OF col] obtain out where
    eq: "traducir_direccion_viento t = Inr out" by blast
  note k = traducir_direccion_viento_Inr(1) [OF wf eq]
  note rows = traducir_direccion_viento_Inr(2) [OF wf eq]
  have len: "length (rows out) = length (rows t)" using k by (rule rows_kept_length)
  have a: "fst (rows out ! i) = fst (rows t ! i) \<and>
        (\<forall>code name deg.
           (code, name, deg) \<in> set [(''N'', ''north'', 0), (''NE'', ''northeast'', 45),
              (''E'', ''east'', 90), (''SE'', ''southeast'', 135), (''S'', ''south'', 180),
              (''SO'', ''southwest'', 225), (''O'', ''west'', 270), (''NO'', ''northwest'', 315)]
           \<and> cell_of t (rows t ! i) ''wind_direction'' = Some (Str code) \<longrightarrow>
             cell_of out (rows out ! i) ''wind_direction_completo'' = Some (Str name) \<and>
             cell_of out (rows out ! i) ''wind_direction_grados'' = Some (Float deg) \<and>
             0 \<le> deg \<and> deg < 360) \<and>
        (cell_of t (rows t ! i) ''wind_direction'' = Some (Str ''C'') \<longrightarrow>
             cell_of out (rows out ! i) ''wind_direction_completo'' = Some (Str ''calm'') \<and>
             cell_of out (rows out ! i) ''wind_direction_grados'' = Some NA)"
    if i: "i < length (rows t)" for i
  proof -
    have l: "fst (rows out ! i) = fst (rows t ! i)" using k i by (rule rows_kept_label)
    from rows [OF i] obtain c where
      c: "cell_of t (rows t ! i) ''wind_direction'' = Some c"
      and n: "cell_of out (rows out ! i) ''wind_direction_completo'' =
                  Some (lookup_cell wind_direction_completo c)"
      and g: "cell_of out (rows out ! i) ''wind_direction_grados'' =
                  Some (lookup_cell wind_direction_grados c)"
      by blast
    show ?thesis
    proof (intro conjI allI impI)
      show "fst (rows out ! i) = fst (rows t ! i)" by (rule l)
    next
      fix code name and deg :: rat
      assume h: "(code, name, deg) \<in> set [(''N'', ''north'', 0), (''NE'', ''northeast'', 45),
              (''E'', ''east'', 90), (''SE'', ''southeast'', 135), (''S'', ''south'', 180),
              (''SO'', ''southwest'', 225), (''O'', ''west'', 270), (''NO'', ''northwest'', 315)]
           \<and> cell_of t (rows t ! i) ''wind_direction'' = Some (Str code)"
      then have cc: "c = Str code" using c by simp
      from h have lk: "map_of wind_direction_completo code = Some (Str name) \<and>
          map_of wind_direction_grados code = Some (Float deg) \<and> 0 \<le> deg \<and> deg < 360"
        by (intro compass_lookup) (rule conjunct1)
      show "cell_of out (rows out ! i) ''wind_direction_completo'' = Some (Str name)"
        using lk by (simp add: n cc lookup_cell_Str)
      show "cell_of out (rows out ! i) ''wind_direction_grados'' = Some (Float deg)"
        using lk by (simp add: g cc lookup_cell_Str)
      show "0 \<le> deg" "deg < 360" using lk by simp_all
    next
      assume "cell_of t (rows t ! i) ''wind_direction'' = Some (Str ''C'')"
      then have cc: "c = Str ''C''" using c by simp
      show "cell_of out (rows out ! i) ''wind_direction_completo'' = Some (Str ''calm'')"
        by (simp add: n cc lookup_cell_Str(1) [OF calm_lookup(1)])
      show "cell_of out (rows out ! i) ''wind_direction_grados'' = Some NA"
        by (simp add: g cc lookup_cell_Str(1) [OF calm_lookup(2)])
    qed
  qed
  have b: "cell_of out (rows out ! i) ''wind_direction_completo'' \<noteq>
        cell_of out (rows out ! j) ''wind_direction_completo''"
    if i: "i < length (rows t)" and j: "j < length (rows t)"
      and ci: "cell_of t (rows t ! i) ''wind_direction'' = Some (Str ci)"
      and cj: "cell_of t (rows t ! j) ''wind_direction'' = Some (Str cj)"
      and mi: "ci \<in> set [''N'', ''NE'', ''E'', ''SE'', ''S'', ''SO'', ''O'', ''NO'']"
      and mj: "cj \<in> set [''N'', ''NE'', ''E'', ''SE'', ''S'', ''SO'', ''O'', ''NO'']"
      and ne: "ci \<noteq> cj" for i j ci cj
  proof
    assume same: "cell_of out (rows out ! i) ''wind_direction_completo'' =
        cell_of out (rows out ! j) ''wind_direction_completo''"
    from compass_defined [OF mi] compass_defined [OF mj] obtain vi vj where
      vi: "map_of wind_direction_completo ci = Some vi"
      and vj: "map_of wind_direction_completo cj = Some vj"
      by blast
    from rows [OF i] ci have
      "cell_of out (rows out ! i) ''wind_direction_completo'' = Some vi"
      by (auto simp: lookup_cell_Str(1) [OF vi])
    moreover from rows [OF j] cj have
      "cell_of out (rows out ! j) ''wind_direction_completo'' = Some vj"
      by (auto simp: lookup_cell_Str(1) [OF vj])
    ultimately have "map_of wind_direction_completo ci = map_of wind_direction_completo cj"
      using same vi vj by simp
    from compass_inj [OF mi mj this] ne show False by simp
  qed
  from eq len a b show ?thesis by blast
qed

text \<open>Claim C4, on a table with the codes N and C: its first row is translated to north, 0.\<close>

theorem traducir_direccion_viento_compass_witness:
  "wf_table ejemplo_viento \<and> ''wind_direction'' \<in> set (columns ejemplo_viento)
   \<and> cell_of ejemplo_viento (rows ejemplo_viento ! 0) ''wind_direction'' = Some (Str ''N'')
   \<and> (\<exists>out. traducir_direccion_viento ejemplo_viento = Inr out
        \<and> cell_of out (rows out ! 0) ''wind_direction_completo'' = Some (Str ''north'')
        \<and> cell_of out (rows out ! 0) ''wind_direction_grados'' = Some (Float 0))"
proof -
  have wf: "wf_table ejemplo_viento"
    by (simp add: wf_table_def ejemplo_viento_def)
  have col: "''wind_direction'' \<in> set (columns ejemplo_viento)"
    by (simp add: ejemplo_viento_def)
  have l: "0 < length (rows ejemplo_viento)"
    by (simp add: ejemplo_viento_def)
  have c: "cell_of ejemplo_viento (rows ejemplo_viento ! 0) ''wind_direction'' = Some (Str ''N'')"
    by (simp add: cell_of_def ejemplo_viento_def)
  have m: "(''N'', ''north'', 0 :: rat) \<in> set [(''N'', ''north'', 0), (''NE'', ''northeast'', 45),
              (''E'', ''east'', 90), (''SE'', ''southeast'', 135), (''S'', ''south'', 180),
              (''SO'', ''southwest'', 225), (''O'', ''west'', 270), (''NO'', ''northwest'', 315)]"
    by simp
  from traducir_direccion_viento_compass [OF wf col] obtain out where
    eq: "traducir_direccion_viento ejemplo_viento = Inr out"
    and a: "(\<forall>i < length (rows ejemplo_viento).
        fst (rows out ! i) = fst (rows ejemplo_viento ! i) \<and>
        (\<forall>code name deg.
           (code, name, deg) \<in> set [(''N'', ''north'', 0), (''NE'', ''northeast'', 45),
              (''E'', ''east'', 90), (''SE'', ''southeast'', 135), (''S'', ''south'', 180),
              (''SO'', ''southwest'', 225), (''O'', ''west'', 270), (''NO'', ''northwest'', 315)]
           \<and> cell_of ejemplo_viento (rows ejemplo_viento ! i) ''wind_direction'' = Some (Str code) \<longrightarrow>
             cell_of out (rows out ! i) ''wind_direction_completo'' = Some (Str name) \<and>
             cell_of out (rows out ! i) ''wind_direction_grados'' = Some (Float deg) \<and>
             0 \<le> deg \<and> deg < 360) \<and>
        (cell_of ejemplo_viento (rows ejemplo_viento ! i) ''wind_direction'' = Some (Str ''C'') \<longrightarrow>
             cell_of out (rows out ! i) ''wind_direction_completo'' = Some (Str ''calm'') \<and>
             cell_of out (rows out ! i) ''wind_direction_grados'' = Some NA))"
    by (elim exE conjE)
  note a0 = a [THEN spec, THEN mp, OF l, THEN conjunct2, THEN conjunct1,
      THEN spec, THEN spec, THEN spec, THEN mp, OF conjI [OF m c]]
  have n: "cell_of out (rows out ! 0) ''wind_direction_completo'' = Some (Str ''north'')"
    using a0 by (rule conjunct1)
  have g: "cell_of out (rows out ! 0) ''wind_direction_grados'' = Some (Float 0)"
    using a0 [THEN conjunct2] by (rule conjunct1)
  from eq n g have "\<exists>out. traducir_direccion_viento ejemplo_viento = Inr out
        \<and> cell_of out (rows out ! 0) ''wind_direction_completo'' = Some (Str ''north'')
        \<and> cell_of out (rows out ! 0) ''wind_direction_grados'' = Some (Float 0)"
    by blast
  with wf col c show ?thesis by (intro conjI)
qed

lemma translation_keys:
  "fst ` set wind_direction_completo = set [''N'', ''NE'', ''E'', ''SE'', ''S'', ''SO'', ''O'', ''NO'', ''C'']"
  "fst ` set wind_direction_grados = set [''N'', ''NE'', ''E'', ''SE'', ''S'', ''SO'', ''O'', ''NO'', ''C'']"
  "fst ` set sky_condition_ingles = set [''Nubes altas'', ''Cubierto'', ''Poco nuboso'', ''Nuboso'', ''Muy nuboso'',
                ''Despejado'', ''Cubierto con lluvia escasa'', ''Cubierto con lluvia'',
                ''Cubierto con tormenta y lluvia escasa'']"
  by (simp_all add: wind_direction_completo_def wind_direction_grados_def
      sky_condition_ingles_def)

lemma lookup_cell_unknown_key:
  "\<not> (\<exists>k \<in> fst ` set d. c = Str k) \<Longrightarrow> lookup_cell d c = NA"
  by (rule lookup_cell_unknown) auto

lemma unknown_wind_code:
  assumes "\<not> (\<exists>k \<in> set [''N'', ''NE'', ''E'', ''SE'', ''S'', ''SO'', ''O'', ''NO'', ''C'']. c = Str k)"
  shows "lookup_cell wind_direction_completo c = NA"
    and "lookup_cell wind_direction_grados c = NA"
proof -
  have "\<not> (\<exists>k \<in> fst ` set wind_direction_completo. c = Str k)"
    unfolding translation_keys(1) by (rule assms)
  then show "lookup_cell wind_direction_completo c = NA"
    by (rule lookup_cell_unknown_key)
  have "\<not> (\<exists>k \<in> fst ` set wind_direction_grados. c = Str k)"
    unfolding translation_keys(2) by (rule assms)
  then show "lookup_cell wind_direction_grados c = NA"
    by (rule lookup_cell_unknown_key)
qed

lemma unknown_sky_phrase:
  assumes "\<not> (\<exists>k \<in> set [''Nubes altas'', ''Cubierto'', ''Poco nuboso'', ''Nuboso'', ''Muy nuboso'',
                ''Despejado'', ''Cubierto con lluvia escasa'', ''Cubierto con lluvia'',
                ''Cubierto con tormenta y lluvia escasa'']. c = Str k)"
  shows "lookup_cell sky_condition_ingles c = NA"
proof -
  have "\<not> (\<exists>k \<in> fst ` set sky_condition_ingles. c = Str k)"
    unfolding translation_keys(3) by (rule assms)
  then show ?thesis
    by (rule lookup_cell_unknown_key)
qed

section \<open>The pipeline, stage by stage\<close>

lemma proceso_stages:
  assumes "proceso_completo_limpieza t = Inr out"
  obtains t1 t2 t3 t4 t5 t6 col t7 t8 t10 where
    "traducir_direccion_viento t = Inr t1"
    "traducir_condicion_cielo t1 = Inr t2"
    "drop_columns t2 [''wind_direction'', ''sky_condition'', ''timestamp''] = Inr t3"
    "convertir_tipos_datos t3 = Inr t4"
    "unificar_fecha_hora t4 = Inr t5"
    "drop_columns t5 [''date'', ''hour''] = Inr t6"
    "pop t6 ''datetime'' = Inr (col, t7)"
    "insert_first t7 ''datetime'' col = Inr t8"
    "marcar_estado_viento (normalizar_nombres_columnas t8 renombres_limpieza) = Inr t10"
    "out = fst (verificar_duplicados t10)"
  using assms
  unfolding proceso_completo_limpieza_def eliminar_columnas_innecesarias_def Let_def
  by (auto simp: bind_err_Inr_iff)

lemma proceso_columns:
  assumes "columns t = [''date'', ''hour'', ''temperature'', ''humidity'', ''wind_speed'',
                 ''wind_direction'', ''sky_condition'', ''timestamp'']"
    and "proceso_completo_limpieza t = Inr out"
  shows "columns out = [''datetime'', ''temperature'', ''humidity'', ''wind_speed'',
                   ''wind_direction'', ''wind_direction_degrees'', ''sky_condition'',
                   ''wind_status'']"
proof -
  from assms(2) obtain t1 t2 t3 t4 t5 t6 col t7 t8 t10 where
    s1: "traducir_direccion_viento t = Inr t1"
    and s2: "traducir_condicion_cielo t1 = Inr t2"
    and s3: "drop_columns t2 [''wind_direction'', ''sky_condition'', ''timestamp''] = Inr t3"
    and s4: "convertir_tipos_datos t3 = Inr t4"
    and s5: "unificar_fecha_hora t4 = Inr t5"
    and s6: "drop_columns t5 [''date'', ''hour''] = Inr t6"
    and s7: "pop t6 ''datetime'' = Inr (col, t7)"
    and s8: "insert_first t7 ''datetime'' col = Inr t8"
    and s10: "marcar_estado_viento (normalizar_nombres_columnas t8 renombres_limpieza) = Inr t10"
    and out: "out = fst (verificar_duplicados t10)"
    by (rule proceso_stages)
  have c1: "columns t1 = [''date'', ''hour'', ''temperature'', ''humidity'', ''wind_speed'',
      ''wind_direction'', ''sky_condition'', ''timestamp'', ''wind_direction_completo'',
      ''wind_direction_grados'']"
    by (simp add: columns_traducir_direccion_viento [OF s1] columns_setitem assms(1))
  have c2: "columns t2 = [''date'', ''hour'', ''temperature'', ''humidity'', ''wind_speed'',
      ''wind_direction'', ''sky_condition'', ''timestamp'', ''wind_direction_completo'',
      ''wind_direction_grados'', ''sky_condition_ingles'']"
    by (simp add: columns_traducir_condicion_cielo [OF s2] columns_setitem c1)
  have c3: "columns t3 = [''date'', ''hour'', ''temperature'', ''humidity'', ''wind_speed'',
      ''wind_direction_completo'', ''wind_direction_grados'', ''sky_condition_ingles'']"
    by (simp add: columns_drop_columns [OF s3] c2)
  have c4: "columns t4 = columns t3"
    using s4 by (rule columns_convertir_tipos_datos)
  have c5: "columns t5 = [''date'', ''hour'', ''temperature'', ''humidity'', ''wind_speed'',
      ''wind_direction_completo'', ''wind_direction_grados'', ''sky_condition_ingles'',
      ''datetime'']"
    by (simp add: columns_unificar_fecha_hora [OF s5] columns_setitem c4 c3)
  have c6: "columns t6 = [''temperature'', ''humidity'', ''wind_speed'',
      ''wind_direction_completo'', ''wind_direction_grados'', ''sky_condition_ingles'',
      ''datetime'']"
    by (simp add: columns_drop_columns [OF s6] c5)
  have c7: "columns t7 = [''temperature'', ''humidity'', ''wind_speed'',
      ''wind_direction_completo'', ''wind_direction_grados'', ''sky_condition_ingles'']"
    by (simp add: columns_pop [OF s7] c6)
  have c8: "columns t8 = [''datetime'', ''temperature'', ''humidity'', ''wind_speed'',
      ''wind_direction_completo'', ''wind_direction_grados'', ''sky_condition_ingles'']"
    by (simp add: columns_insert_first [OF s8] c7)
  have c9: "columns (normalizar_nombres_columnas t8 renombres_limpieza) =
      [''datetime'', ''temperature'', ''humidity'', ''wind_speed'',
       ''wind_direction'', ''wind_direction_degrees'', ''sky_condition'']"
    by (simp add: columns_normalizar c8 lower_names renombres_limpieza_def)
  have c10: "columns t10 = [''datetime'', ''temperature'', ''humidity'', ''wind_speed'',
       ''wind_direction'', ''wind_direction_degrees'', ''sky_condition'', ''wind_status'']"
    by (simp add: columns_marcar_estado_viento [OF s10] columns_setitem c9)
  have "columns out = columns t10"
    by (simp add: out columns_verificar_duplicados)
  then show ?thesis by (simp add: c10)
qed

lemma proceso_rows:
  assumes wf: "wf_table t"
    and cols: "columns t = [''date'', ''hour'', ''temperature'', ''humidity'', ''wind_speed'',
                 ''wind_direction'', ''sky_condition'', ''timestamp'']"
    and ok: "proceso_completo_limpieza t = Inr out"
  obtains pre where
    "wf_table pre" "columns out = columns pre" "length (rows pre) = length (rows t)"
    "rows out = kept_from [] (rows pre)"
    "\<And>i. i < length (rows t) \<Longrightarrow>
       fst (rows pre ! i) = fst (rows t ! i) \<and>
       (\<exists>c s g. cell_of t (rows t ! i) ''wind_direction'' = Some c
          \<and> cell_of t (rows t ! i) ''sky_condition'' = Some s
          \<and> float_cell (lookup_cell wind_direction_grados c) = Inr g
          \<and> cell_of pre (rows pre ! i) ''wind_direction'' =
               Some (lookup_cell wind_direction_completo c)
          \<and> cell_of pre (rows pre ! i) ''wind_direction_degrees'' = Some g
          \<and> cell_of pre (rows pre ! i) ''sky_condition'' =
               Some (lookup_cell sky_condition_ingles s)
          \<and> cell_of pre (rows pre ! i) ''wind_status'' =
               Some (if isna g then Str ''calm'' else Str ''with wind''))"
proof -
  from ok obtain t1 t2 t3 t4 t5 t6 col t7 t8 t10 where
    s1: "traducir_direccion_viento t = Inr t1"
    and s2: "traducir_condicion_cielo t1 = Inr t2"
    and s3: "drop_columns t2 [''wind_direction'', ''sky_condition'', ''timestamp''] = Inr t3"
    and s4: "convertir_tipos_datos t3 = Inr t4"
    and s5: "unificar_fecha_hora t4 = Inr t5"
    and s6: "drop_columns t5 [''date'', ''hour''] = Inr t6"
    and s7: "pop t6 ''datetime'' = Inr (col, t7)"
    and s8: "insert_first t7 ''datetime'' col = Inr t8"
    and s10: "marcar_estado_viento (normalizar_nombres_columnas t8 renombres_limpieza) = Inr t10"
    and out: "out = fst (verificar_duplicados t10)"
    by (rule proceso_stages)
  define t9 where "t9 = normalizar_nombres_columnas t8 renombres_limpieza"
  have s10': "marcar_estado_viento t9 = Inr t10" using s10 by (simp add: t9_def)
  define n where "n = length (rows t)"
  \<comment> \<open>columns\<close>
  have c1: "columns t1 = [''date'', ''hour'', ''temperature'', ''humidity'', ''wind_speed'',
      ''wind_direction'', ''sky_condition'', ''timestamp'', ''wind_direction_completo'',
      ''wind_direction_grados'']"
    by (simp add: columns_traducir_direccion_viento [OF s1] columns_setitem cols)
  have c2: "columns t2 = [''date'', ''hour'', ''temperature'', ''humidity'', ''wind_speed'',
      ''wind_direction'', ''sky_condition'', ''timestamp'', ''wind_direction_completo'',
      ''wind_direction_grados'', ''sky_condition_ingles'']"
    by (simp add: columns_traducir_condicion_cielo [OF s2] columns_setitem c1)
  have c3: "columns t3 = [''date'', ''hour'', ''temperature'', ''humidity'', ''wind_speed'',
      ''wind_direction_completo'', ''wind_direction_grados'', ''sky_condition_ingles'']"
    by (simp add: columns_drop_columns [OF s3] c2)
  have c4: "columns t4 = columns t3"
    using s4 by (rule columns_convertir_tipos_datos)
  have c5: "columns t5 = [''date'', ''hour'', ''temperature'', ''humidity'', ''wind_speed'',
      ''wind_direction_completo'', ''wind_direction_grados'', ''sky_condition_ingles'',
      ''datetime'']"
    by (simp add: columns_unificar_fecha_hora [OF s5] columns_setitem c4 c3)
  have c6: "columns t6 = [''temperature'', ''humidity'', ''wind_speed'',
      ''wind_direction_completo'', ''wind_direction_grados'', ''sky_condition_ingles'',
      ''datetime'']"
    by (simp add: columns_drop_columns [OF s6] c5)
  have c7: "columns t7 = [''temperature'', ''humidity'', ''wind_speed'',
      ''wind_direction_completo'', ''wind_direction_grados'', ''sky_condition_ingles'']"
    by (simp add: columns_pop [OF s7] c6)
  have c8: "columns t8 = [''datetime'', ''temperature'', ''humidity'', ''wind_speed'',
      ''wind_direction_completo'', ''wind_direction_grados'', ''sky_condition_ingles'']"
    by (simp add: columns_insert_first [OF s8] c7)
  \<comment> \<open>rows, stage by stage\<close>
  note k1 = traducir_direccion_viento_Inr(1) [OF wf s1]
  have wf1: "wf_table t1" using k1 by (rule rows_kept_wf)
  note k2 = traducir_condicion_cielo_Inr(1) [OF wf1 s2]
  have wf2: "wf_table t2" using k2 by (rule rows_kept_wf)
  have k3: "rows_kept {''wind_direction'', ''sky_condition'', ''timestamp''} t2 t3"
    using drop_columns_Inr(1) [OF wf2 s3] by simp
  have wf3: "wf_table t3" using k3 by (rule rows_kept_wf)
  note k4 = convertir_tipos_datos_Inr(1) [OF wf3 s4]
  have wf4: "wf_table t4" using k4 by (rule rows_kept_wf)
  note k5 = unificar_fecha_hora_Inr(1) [OF wf4 s5]
  have wf5: "wf_table t5" using k5 by (rule rows_kept_wf)
  have k6: "rows_kept {''date'', ''hour''} t5 t6"
    using drop_columns_Inr(1) [OF wf5 s6] by simp
  have wf6: "wf_table t6" using k6 by (rule rows_kept_wf)
  note k7 = pop_Inr(1) [OF wf6 s7]
  have wf7: "wf_table t7" using k7 by (rule rows_kept_wf)
  have lcol: "length col = length (rows t7)"
    using pop_Inr(2) [OF wf6 s7] rows_kept_length [OF k7] by simp
  note k8 = insert_first_Inr(1) [OF wf7 lcol s8]
  have wf8: "wf_table t8" using k8 by (rule rows_kept_wf)
  note nz = normalizar_limpieza [OF wf8 c8, folded t9_def]
  have wf9: "wf_table t9" by (rule nz(1))
  have r9: "rows t9 = rows t8" by (rule nz(2))
  note k10 = marcar_estado_viento_Inr(1) [OF wf9 s10']
  have wf10: "wf_table t10" using k10 by (rule rows_kept_wf)
  \<comment> \<open>lengths\<close>
  have n1: "length (rows t1) = n" using rows_kept_length [OF k1] by (simp add: n_def)
  have n2: "length (rows t2) = n" using rows_kept_length [OF k2] n1 by simp
  have n3: "length (rows t3) = n" using rows_kept_length [OF k3] n2 by simp
  have n4: "length (rows t4) = n" using rows_kept_length [OF k4] n3 by simp
  have n5: "length (rows t5) = n" using rows_kept_length [OF k5] n4 by simp
  have n6: "length (rows t6) = n" using rows_kept_length [OF k6] n5 by simp
  have n7: "length (rows t7) = n" using rows_kept_length [OF k7] n6 by simp
  have n8: "length (rows t8) = n" using rows_kept_length [OF k8] n7 by simp
  have n9: "length (rows t9) = n" using n8 r9 by simp
  have n10: "length (rows t10) = n" using rows_kept_length [OF k10] n9 by simp
  \<comment> \<open>composed frames\<close>
  have kA: "rows_kept {''sky_condition_ingles'', ''wind_direction'', ''sky_condition'',
      ''timestamp''} t1 t3"
    using k2 k3 by (rule rows_kept_then) simp_all
  have kC1: "rows_kept {''datetime'', ''date'', ''hour''} t4 t6"
    using k5 k6 by (rule rows_kept_then) simp_all
  have kC2: "rows_kept {''datetime'', ''date'', ''hour''} t4 t7"
    using kC1 k7 by (rule rows_kept_then) simp_all
  have kC: "rows_kept {''datetime'', ''date'', ''hour''} t4 t8"
    using kC2 k8 by (rule rows_kept_then) simp_all
  have kBC: "rows_kept {''date'', ''hour'', ''temperature'', ''humidity'', ''wind_speed'',
           ''wind_direction_grados'', ''datetime''} t3 t8"
    using k4 kC by (rule rows_kept_then) simp_all
  have k28: "rows_kept {''date'', ''hour'', ''temperature'', ''humidity'', ''wind_speed'',
           ''wind_direction_grados'', ''datetime'', ''wind_direction'', ''sky_condition'',
           ''timestamp''} t2 t8"
    using k3 kBC by (rule rows_kept_then) simp_all
  have k18: "rows_kept {''date'', ''hour'', ''temperature'', ''humidity'', ''wind_speed'',
           ''wind_direction_grados'', ''datetime'', ''wind_direction'', ''sky_condition'',
           ''timestamp'', ''sky_condition_ingles''} t1 t8"
    using k2 k28 by (rule rows_kept_then) simp_all
  have row: "fst (rows t10 ! i) = fst (rows t ! i) \<and>
       (\<exists>c s g. cell_of t (rows t ! i) ''wind_direction'' = Some c
          \<and> cell_of t (rows t ! i) ''sky_condition'' = Some s
          \<and> float_cell (lookup_cell wind_direction_grados c) = Inr g
          \<and> cell_of t10 (rows t10 ! i) ''wind_direction'' =
               Some (lookup_cell wind_direction_completo c)
          \<and> cell_of t10 (rows t10 ! i) ''wind_direction_degrees'' = Some g
          \<and> cell_of t10 (rows t10 ! i) ''sky_condition'' =
               Some (lookup_cell sky_condition_ingles s)
          \<and> cell_of t10 (rows t10 ! i) ''wind_status'' =
               Some (if isna g then Str ''calm'' else Str ''with wind''))"
    if i: "i < length (rows t)" for i
  proof -
    have i0: "i < n" using i by (simp add: n_def)
    \<comment> \<open>labels\<close>
    have "fst (rows t8 ! i) = fst (rows t1 ! i)"
      using rows_kept_label [OF k18] i0 n1 by simp
    moreover have "fst (rows t1 ! i) = fst (rows t ! i)"
      using rows_kept_label [OF k1 i] .
    moreover have "fst (rows t10 ! i) = fst (rows t9 ! i)"
      using rows_kept_label [OF k10] i0 n9 by simp
    ultimately have lab: "fst (rows t10 ! i) = fst (rows t ! i)" by (simp add: r9)
    \<comment> \<open>wind direction\<close>
    from traducir_direccion_viento_Inr(2) [OF wf s1 i] obtain c where
      c: "cell_of t (rows t ! i) ''wind_direction'' = Some c"
      and n1c: "cell_of t1 (rows t1 ! i) ''wind_direction_completo'' =
             Some (lookup_cell wind_direction_completo c)"
      and g1: "cell_of t1 (rows t1 ! i) ''wind_direction_grados'' =
             Some (lookup_cell wind_direction_grados c)"
      by blast
    have "cell_of t8 (rows t8 ! i) ''wind_direction_completo'' =
        cell_of t1 (rows t1 ! i) ''wind_direction_completo''"
      using rows_kept_cell [OF k18] i0 n1 by simp
    with n1c have n8c: "cell_of t8 (rows t8 ! i) ''wind_direction_completo'' =
        Some (lookup_cell wind_direction_completo c)" by simp
    \<comment> \<open>degrees\<close>
    have "cell_of t3 (rows t3 ! i) ''wind_direction_grados'' =
        cell_of t1 (rows t1 ! i) ''wind_direction_grados''"
      using rows_kept_cell [OF kA] i0 n1 by simp
    with g1 have g3: "cell_of t3 (rows t3 ! i) ''wind_direction_grados'' =
        Some (lookup_cell wind_direction_grados c)" by simp
    have "''wind_direction_grados'' \<in> set (columns t3)" by (simp add: c3)
    from convertir_tipos_datos_Inr(3) [OF wf3 s4 _ this, of i] g3 i0 n3 obtain g where
      fg: "float_cell (lookup_cell wind_direction_grados c) = Inr g"
      and g4: "cell_of t4 (rows t4 ! i) ''wind_direction_grados'' = Some g"
      by auto
    have "cell_of t8 (rows t8 ! i) ''wind_direction_grados'' =
        cell_of t4 (rows t4 ! i) ''wind_direction_grados''"
      using rows_kept_cell [OF kC] i0 n4 by simp
    with g4 have g8: "cell_of t8 (rows t8 ! i) ''wind_direction_grados'' = Some g" by simp
    \<comment> \<open>sky condition\<close>
    have i1: "i < length (rows t1)" using i0 n1 by simp
    from traducir_condicion_cielo_Inr(2) [OF wf1 s2 i1] obtain s where
      s1c: "cell_of t1 (rows t1 ! i) ''sky_condition'' = Some s"
      and s2c: "cell_of t2 (rows t2 ! i) ''sky_condition_ingles'' =
             Some (lookup_cell sky_condition_ingles s)"
      by blast
    have "cell_of t1 (rows t1 ! i) ''sky_condition'' = cell_of t (rows t ! i) ''sky_condition''"
      using rows_kept_cell [OF k1 i] by simp
    with s1c have s: "cell_of t (rows t ! i) ''sky_condition'' = Some s" by simp
    have "cell_of t8 (rows t8 ! i) ''sky_condition_ingles'' =
        cell_of t2 (rows t2 ! i) ''sky_condition_ingles''"
      using rows_kept_cell [OF k28] i0 n2 by simp
    with s2c have s8c: "cell_of t8 (rows t8 ! i) ''sky_condition_ingles'' =
        Some (lookup_cell sky_condition_ingles s)" by simp
    \<comment> \<open>renaming\<close>
    have "rows t8 ! i \<in> set (rows t8)" using i0 n8 by simp
    from nz(3) [OF this] n8c g8 s8c have
      a9: "cell_of t9 (rows t9 ! i) ''wind_direction'' =
            Some (lookup_cell wind_direction_completo c)"
      and b9: "cell_of t9 (rows t9 ! i) ''wind_direction_degrees'' = Some g"
      and d9: "cell_of t9 (rows t9 ! i) ''sky_condition'' =
            Some (lookup_cell sky_condition_ingles s)"
      by (simp_all add: r9)
    \<comment> \<open>wind status\<close>
    have i9: "i < length (rows t9)" using i0 n9 by simp
    have a10: "cell_of t10 (rows t10 ! i) ''wind_direction'' =
            Some (lookup_cell wind_direction_completo c)"
      using rows_kept_cell [OF k10 i9, of "''wind_direction''"] a9 by simp
    have b10: "cell_of t10 (rows t10 ! i) ''wind_direction_degrees'' = Some g"
      using rows_kept_cell [OF k10 i9, of "''wind_direction_degrees''"] b9 by simp
    have d10: "cell_of t10 (rows t10 ! i) ''sky_condition'' =
            Some (lookup_cell sky_condition_ingles s)"
      using rows_kept_cell [OF k10 i9, of "''sky_condition''"] d9 by simp
    from marcar_estado_viento_Inr(3) [OF wf9 s10' i9] b9 have
      e10: "cell_of t10 (rows t10 ! i) ''wind_status'' =
               Some (if isna g then Str ''calm'' else Str ''with wind'')"
      by auto
    from lab c s fg a10 b10 d10 e10 show ?thesis by blast
  qed
  have co: "columns out = columns t10"
    by (simp add: out columns_verificar_duplicados)
  have "columns t10 \<noteq> []"
    using proceso_columns [OF cols ok] co by auto
  then have "rows out = kept_from [] (rows t10)"
    by (simp add: out verificar_duplicados_def Let_def rows_drop_duplicates)
  moreover note co
  moreover have "length (rows t10) = length (rows t)" using n10 by (simp add: n_def)
  ultimately show ?thesis
    using that [of t10] wf10 row by blast
qed






text \<open>An output row and the input row with its label.\<close>

lemma proceso_row_source:
  assumes wf: "wf_table t"
    and cols: "columns t = [''date'', ''hour'', ''temperature'', ''humidity'', ''wind_speed'',
                 ''wind_direction'', ''sky_condition'', ''timestamp'']"
    and labels: "distinct (map fst (rows t))"
    and ok: "proceso_completo_limpieza t = Inr out"
    and r: "r \<in> set (rows out)"
    and r0: "r0 \<in> set (rows t)"
    and eq: "fst r0 = fst r"
  shows "\<exists>c s g. cell_of t r0 ''wind_direction'' = Some c
          \<and> cell_of t r0 ''sky_condition'' = Some s
          \<and> float_cell (lookup_cell wind_direction_grados c) = Inr g
          \<and> cell_of out r ''wind_direction'' = Some (lookup_cell wind_direction_completo c)
          \<and> cell_of out r ''wind_direction_degrees'' = Some g
          \<and> cell_of out r ''sky_condition'' = Some (lookup_cell sky_condition_ingles s)
          \<and> cell_of out r ''wind_status'' =
               Some (if isna g then Str ''calm'' else Str ''with wind'')"
proof (rule proceso_rows [OF wf cols ok])
  fix pre
  assume cp: "columns out = columns pre" and len: "length (rows pre) = length (rows t)"
    and ro: "rows out = kept_from [] (rows pre)"
    and row: "\<And>i. i < length (rows t) \<Longrightarrow>
       fst (rows pre ! i) = fst (rows t ! i) \<and>
       (\<exists>c s g. cell_of t (rows t ! i) ''wind_direction'' = Some c
          \<and> cell_of t (rows t ! i) ''sky_condition'' = Some s
          \<and> float_cell (lookup_cell wind_direction_grados c) = Inr g
          \<and> cell_of pre (rows pre ! i) ''wind_direction'' =
               Some (lookup_cell wind_direction_completo c)
          \<and> cell_of pre (rows pre ! i) ''wind_direction_degrees'' = Some g
          \<and> cell_of pre (rows pre ! i) ''sky_condition'' =
               Some (lookup_cell sky_condition_ingles s)
          \<and> cell_of pre (rows pre ! i) ''wind_status'' =
               Some (if isna g then Str ''calm'' else Str ''with wind''))"
  have same: "cell_of out = cell_of pre"
    by (intro ext) (simp add: cell_of_def cp)
  from r ro have "r \<in> set (rows pre)"
    using set_kept_from_subset [of "[]" "rows pre"] by auto
  then obtain i where i: "i < length (rows t)" and ri: "rows pre ! i = r"
    using len by (auto simp: in_set_conv_nth)
  from r0 obtain j where j: "j < length (rows t)" and rj: "rows t ! j = r0"
    by (auto simp: in_set_conv_nth)
  have "fst (rows t ! i) = fst r"
    using row [OF i] by (simp add: ri)
  then have "map fst (rows t) ! j = map fst (rows t) ! i"
    using eq i j by (simp add: rj)
  with nth_eq_iff_index_eq [OF labels, of j i] i j have "j = i"
    by simp
  then have ri0: "rows t ! i = r0" using rj by simp
  from row [OF i] show ?thesis
    unfolding same ri ri0 by (rule conjunct2)
qed


text \<open>The pipeline on the example tables.\<close>

lemma proceso_ejemplo_crudo: "proceso_completo_limpieza ejemplo_crudo = Inr ejemplo_limpio"
  by code_simp

lemma proceso_ejemplo_dia_mes:
  "proceso_completo_limpieza ejemplo_dia_mes = Inr ejemplo_dia_mes_limpio"
  by code_simp

lemma proceso_ejemplo_viento:
  "proceso_completo_limpieza ejemplo_viento = Inr ejemplo_viento_limpio"
  by code_simp


section \<open>Unknown codes and phrases\<close>

text \<open>
  Claim C6. On a table with the two columns, neither translator raises: each returns a
  table with the same rows, in which a row whose wind code is none of the nine codes
  (or whose sky phrase is none of the nine phrases) has a missing value in the added
  column or columns. The pipeline goes on with these values: in every table it returns,
  such a row has a missing wind direction and missing degrees, or a missing sky condition.
\<close>

theorem translators_unknown_give_null:
  assumes wf: "wf_table t"
    and cw: "''wind_direction'' \<in> set (columns t)"
    and cs: "''sky_condition'' \<in> set (columns t)"
  shows "(\<exists>u. traducir_direccion_viento t = Inr u \<and> length (rows u) = length (rows t) \<and>
           (\<forall>i < length (rows t).
              \<not> (\<exists>k \<in> set [''N'', ''NE'', ''E'', ''SE'', ''S'', ''SO'', ''O'', ''NO'', ''C''].
                 cell_of t (rows t ! i) ''wind_direction'' = Some (Str k)) \<longrightarrow>
              cell_of u (rows u ! i) ''wind_direction_completo'' = Some NA \<and>
              cell_of u (rows u ! i) ''wind_direction_grados'' = Some NA))
       \<and> (\<exists>u. traducir_condicion_cielo t = Inr u \<and> length (rows u) = length (rows t) \<and>
           (\<forall>i < length (rows t).
              \<not> (\<exists>k \<in> set [''Nubes altas'', ''Cubierto'', ''Poco nuboso'', ''Nuboso'', ''Muy nuboso'',
                ''Despejado'', ''Cubierto con lluvia escasa'', ''Cubierto con lluvia'',
                ''Cubierto con tormenta y lluvia escasa''].
                 cell_of t (rows t ! i) ''sky_condition'' = Some (Str k)) \<longrightarrow>
              cell_of u (rows u ! i) ''sky_condition_ingles'' = Some NA))
       \<and> (\<forall>out. columns t = [''date'', ''hour'', ''temperature'', ''humidity'', ''wind_speed'',
                 ''wind_direction'', ''sky_condition'', ''timestamp'']
            \<and> distinct (map fst (rows t))
            \<and> proceso_completo_limpieza t = Inr out \<longrightarrow>
          (\<forall>r \<in> set (rows out). \<forall>r0 \<in> set (rows t). fst r0 = fst r \<longrightarrow>
            (\<not> (\<exists>k \<in> set [''N'', ''NE'', ''E'', ''SE'', ''S'', ''SO'', ''O'', ''NO'', ''C''].
                 cell_of t r0 ''wind_direction'' = Some (Str k)) \<longrightarrow>
               cell_of out r ''wind_direction'' = Some NA \<and>
               cell_of out r ''wind_direction_degrees'' = Some NA) \<and>
            (\<not> (\<exists>k \<in> set [''Nubes altas'', ''Cubierto'', ''Poco nuboso'', ''Nuboso'', ''Muy nuboso'',
                ''Despejado'', ''Cubierto con lluvia escasa'', ''Cubierto con lluvia'',
                ''Cubierto con tormenta y lluvia escasa''].
                 cell_of t r0 ''sky_condition'' = Some (Str k)) \<longrightarrow>
               cell_of out r ''sky_condition'' = Some NA)))"
proof (intro conjI)
  from traducir_direccion_viento_total [OF cw] obtain u where
    eq: "traducir_direccion_viento t = Inr u" by blast
  note k = traducir_direccion_viento_Inr(1) [OF wf eq]
  note rows = traducir_direccion_viento_Inr(2) [OF wf eq]
  have "cell_of u (rows u ! i) ''wind_direction_completo'' = Some NA \<and>
        cell_of u (rows u ! i) ''wind_direction_grados'' = Some NA"
    if i: "i < length (rows t)"
      and un: "\<not> (\<exists>k \<in> set [''N'', ''NE'', ''E'', ''SE'', ''S'', ''SO'', ''O'', ''NO'', ''C''].
                 cell_of t (rows t ! i) ''wind_direction'' = Some (Str k))" for i
  proof -
    from rows [OF i] obtain c where
      c: "cell_of t (rows t ! i) ''wind_direction'' = Some c"
      and n: "cell_of u (rows u ! i) ''wind_direction_completo'' =
                  Some (lookup_cell wind_direction_completo c)"
      and g: "cell_of u (rows u ! i) ''wind_direction_grados'' =
                  Some (lookup_cell wind_direction_grados c)"
      by blast
    from un have "\<not> (\<exists>k \<in> set [''N'', ''NE'', ''E'', ''SE'', ''S'', ''SO'', ''O'', ''NO'', ''C'']. c = Str k)"
      unfolding c option.inject .
    from unknown_wind_code [OF this] show ?thesis by (simp add: n g)
  qed
  with eq rows_kept_length [OF k]
  show "(\<exists>u. traducir_direccion_viento t = Inr u \<and> length (rows u) = length (rows t) \<and>
           (\<forall>i < length (rows t).
              \<not> (\<exists>k \<in> set [''N'', ''NE'', ''E'', ''SE'', ''S'', ''SO'', ''O'', ''NO'', ''C''].
                 cell_of t (rows t ! i) ''wind_direction'' = Some (Str k)) \<longrightarrow>
              cell_of u (rows u ! i) ''wind_direction_completo'' = Some NA \<and>
              cell_of u (rows u ! i) ''wind_direction_grados'' = Some NA))"
    by blast
next
  from traducir_condicion_cielo_total [OF cs] obtain u where
    eq: "traducir_condicion_cielo t = Inr u" by blast
  note k = traducir_condicion_cielo_Inr(1) [OF wf eq]
  note rows = traducir_condicion_cielo_Inr(2) [OF wf eq]
  have "cell_of u (rows u ! i) ''sky_condition_ingles'' = Some NA"
    if i: "i < length (rows t)"
      and un: "\<not> (\<exists>k \<in> set [''Nubes altas'', ''Cubierto'', ''Poco nuboso'', ''Nuboso'', ''Muy nuboso'',
                ''Despejado'', ''Cubierto con lluvia escasa'', ''Cubierto con lluvia'',
                ''Cubierto con tormenta y lluvia escasa''].
                 cell_of t (rows t ! i) ''sky_condition'' = Some (Str k))" for i
  proof -
    from rows [OF i] obtain c where
      c: "cell_of t (rows t ! i) ''sky_condition'' = Some c"
      and n: "cell_of u (rows u ! i) ''sky_condition_ingles'' =
                  Some (lookup_cell sky_condition_ingles c)"
      by blast
    from un have "\<not> (\<exists>k \<in> set [''Nubes altas'', ''Cubierto'', ''Poco nuboso'', ''Nuboso'', ''Muy nuboso'',
                ''Despejado'', ''Cubierto con lluvia escasa'', ''Cubierto con lluvia'',
                ''Cubierto con tormenta y lluvia escasa'']. c = Str k)"
      unfolding c option.inject .
    from unknown_sky_phrase [OF this] show ?thesis by (simp add: n)
  qed
  with eq rows_kept_length [OF k]
  show "(\<exists>u. traducir_condicion_cielo t = Inr u \<and> length (rows u) = length (rows t) \<and>
           (\<forall>i < length (rows t).
              \<not> (\<exists>k \<in> set [''Nubes altas'', ''Cubierto'', ''Poco nuboso'', ''Nuboso'', ''Muy nuboso'',
                ''Despejado'', ''Cubierto con lluvia escasa'', ''Cubierto con lluvia'',
                ''Cubierto con tormenta y lluvia escasa''].
                 cell_of t (rows t ! i) ''sky_condition'' = Some (Str k)) \<longrightarrow>
              cell_of u (rows u ! i) ''sky_condition_ingles'' = Some NA))"
    by blast
next
  show "(\<forall>out. columns t = [''date'', ''hour'', ''temperature'', ''humidity'', ''wind_speed'',
                 ''wind_direction'', ''sky_condition'', ''timestamp'']
            \<and> distinct (map fst (rows t))
            \<and> proceso_completo_limpieza t = Inr out \<longrightarrow>
          (\<forall>r \<in> set (rows out). \<forall>r0 \<in> set (rows t). fst r0 = fst r \<longrightarrow>
            (\<not> (\<exists>k \<in> set [''N'', ''NE'', ''E'', ''SE'', ''S'', ''SO'', ''O'', ''NO'', ''C''].
                 cell_of t r0 ''wind_direction'' = Some (Str k)) \<longrightarrow>
               cell_of out r ''wind_direction'' = Some NA \<and>
               cell_of out r ''wind_direction_degrees'' = Some NA) \<and>
            (\<not> (\<exists>k \<in> set [''Nubes altas'', ''Cubierto'', ''Poco nuboso'', ''Nuboso'', ''Muy nuboso'',
                ''Despejado'', ''Cubierto con lluvia escasa'', ''Cubierto con lluvia'',
                ''Cubierto con tormenta y lluvia escasa''].
                 cell_of t r0 ''sky_condition'' = Some (Str k)) \<longrightarrow>
               cell_of out r ''sky_condition'' = Some NA)))"
  proof (intro allI impI ballI, elim conjE)
    fix out r r0
    assume cols: "columns t = [''date'', ''hour'', ''temperature'', ''humidity'', ''wind_speed'',
                 ''wind_direction'', ''sky_condition'', ''timestamp'']"
      and labels: "distinct (map fst (rows t))"
      and ok: "proceso_completo_limpieza t = Inr out"
      and r: "r \<in> set (rows out)" and r0: "r0 \<in> set (rows t)" and e: "fst r0 = fst r"
    from proceso_row_source [OF wf cols labels ok r r0 e] obtain c s g where
      c: "cell_of t r0 ''wind_direction'' = Some c"
      and s: "cell_of t r0 ''sky_condition'' = Some s"
      and fg: "float_cell (lookup_cell wind_direction_grados c) = Inr g"
      and wd: "cell_of out r ''wind_direction'' = Some (lookup_cell wind_direction_completo c)"
      and deg: "cell_of out r ''wind_direction_degrees'' = Some g"
      and sk: "cell_of out r ''sky_condition'' = Some (lookup_cell sky_condition_ingles s)"
      by (elim exE conjE)
    have w: "cell_of out r ''wind_direction'' = Some NA \<and>
             cell_of out r ''wind_direction_degrees'' = Some NA"
      if un: "\<not> (\<exists>k \<in> set [''N'', ''NE'', ''E'', ''SE'', ''S'', ''SO'', ''O'', ''NO'', ''C''].
                 cell_of t r0 ''wind_direction'' = Some (Str k))"
    proof -
      from un have "\<not> (\<exists>k \<in> set [''N'', ''NE'', ''E'', ''SE'', ''S'', ''SO'', ''O'', ''NO'', ''C'']. c = Str k)"
        unfolding c option.inject .
      from unknown_wind_code [OF this] fg show ?thesis by (simp add: wd deg)
    qed
    have k: "cell_of out r ''sky_condition'' = Some NA"
      if un: "\<not> (\<exists>k \<in> set [''Nubes altas'', ''Cubierto'', ''Poco nuboso'', ''Nuboso'', ''Muy nuboso'',
                ''Despejado'', ''Cubierto con lluvia escasa'', ''Cubierto con lluvia'',
                ''Cubierto con tormenta y lluvia escasa''].
                 cell_of t r0 ''sky_condition'' = Some (Str k))"
    proof -
      from un have "\<not> (\<exists>k \<in> set [''Nubes altas'', ''Cubierto'', ''Poco nuboso'', ''Nuboso'', ''Muy nuboso'',
                ''Despejado'', ''Cubierto con lluvia escasa'', ''Cubierto con lluvia'',
                ''Cubierto con tormenta y lluvia escasa'']. s = Str k)"
        unfolding s option.inject .
      from unknown_sky_phrase [OF this] show ?thesis by (simp add: sk)
    qed
    from w k show "(\<not> (\<exists>k \<in> set [''N'', ''NE'', ''E'', ''SE'', ''S'', ''SO'', ''O'', ''NO'', ''C''].
                 cell_of t r0 ''wind_direction'' = Some (Str k)) \<longrightarrow>
               cell_of out r ''wind_direction'' = Some NA \<and>
               cell_of out r ''wind_direction_degrees'' = Some NA) \<and>
            (\<not> (\<exists>k \<in> set [''Nubes altas'', ''Cubierto'', ''Poco nuboso'', ''Nuboso'', ''Muy nuboso'',
                ''Despejado'', ''Cubierto con lluvia escasa'', ''Cubierto con lluvia'',
                ''Cubierto con tormenta y lluvia escasa''].
                 cell_of t r0 ''sky_condition'' = Some (Str k)) \<longrightarrow>
               cell_of out r ''sky_condition'' = Some NA)"
      by blast
  qed
qed

text \<open>
  Claim C6, on a table whose last row has the wind code SW and the sky phrase Niebla,
  neither of them in the dictionaries: the pipeline returns it with missing values.
\<close>

theorem translators_unknown_give_null_witness:
  "wf_table ejemplo_viento
   \<and> ''wind_direction'' \<in> set (columns ejemplo_viento)
   \<and> ''sky_condition'' \<in> set (columns ejemplo_viento)
   \<and> columns ejemplo_viento = [''date'', ''hour'', ''temperature'', ''humidity'', ''wind_speed'',
                 ''wind_direction'', ''sky_condition'', ''timestamp'']
   \<and> distinct (map fst (rows ejemplo_viento))
   \<and> proceso_completo_limpieza ejemplo_viento = Inr ejemplo_viento_limpio
   \<and> rows ejemplo_viento_limpio ! 3 \<in> set (rows ejemplo_viento_limpio)
   \<and> rows ejemplo_viento ! 3 \<in> set (rows ejemplo_viento)
   \<and> fst (rows ejemplo_viento ! 3) = fst (rows ejemplo_viento_limpio ! 3)
   \<and> cell_of ejemplo_viento (rows ejemplo_viento ! 3) ''wind_direction'' = Some (Str ''SW'')
   \<and> cell_of ejemplo_viento (rows ejemplo_viento ! 3) ''sky_condition'' = Some (Str ''Niebla'')
   \<and> \<not> (\<exists>k \<in> set [''N'', ''NE'', ''E'', ''SE'', ''S'', ''SO'', ''O'', ''NO'', ''C''].
                 cell_of ejemplo_viento (rows ejemplo_viento ! 3) ''wind_direction'' = Some (Str k))
   \<and> \<not> (\<exists>k \<in> set [''Nubes altas'', ''Cubierto'', ''Poco nuboso'', ''Nuboso'', ''Muy nuboso'',
                ''Despejado'', ''Cubierto con lluvia escasa'', ''Cubierto con lluvia'',
                ''Cubierto con tormenta y lluvia escasa''].
                 cell_of ejemplo_viento (rows ejemplo_viento ! 3) ''sky_condition'' = Some (Str k))
   \<and> cell_of ejemplo_viento_limpio (rows ejemplo_viento_limpio ! 3) ''wind_direction'' = Some NA
   \<and> cell_of ejemplo_viento_limpio (rows ejemplo_viento_limpio ! 3) ''wind_direction_degrees''
        = Some NA
   \<and> cell_of ejemplo_viento_limpio (rows ejemplo_viento_limpio ! 3) ''sky_condition'' = Some NA"
proof -
  have wf: "wf_table ejemplo_viento"
    by (simp add: wf_table_def ejemplo_viento_def)
  have cw: "''wind_direction'' \<in> set (columns ejemplo_viento)"
    and cs: "''sky_condition'' \<in> set (columns ejemplo_viento)"
    and cols: "columns ejemplo_viento = [''date'', ''hour'', ''temperature'', ''humidity'', ''wind_speed'',
                 ''wind_direction'', ''sky_condition'', ''timestamp'']"
    and labels: "distinct (map fst (rows ejemplo_viento))"
    and r0: "rows ejemplo_viento ! 3 \<in> set (rows ejemplo_viento)"
    by (simp_all add: ejemplo_viento_def)
  have r: "rows ejemplo_viento_limpio ! 3 \<in> set (rows ejemplo_viento_limpio)"
    by (simp add: ejemplo_viento_limpio_def)
  have e: "fst (rows ejemplo_viento ! 3) = fst (rows ejemplo_viento_limpio ! 3)"
    by (simp add: ejemplo_viento_def ejemplo_viento_limpio_def)
  have c: "cell_of ejemplo_viento (rows ejemplo_viento ! 3) ''wind_direction'' = Some (Str ''SW'')"
    and s: "cell_of ejemplo_viento (rows ejemplo_viento ! 3) ''sky_condition'' = Some (Str ''Niebla'')"
    by (simp_all add: cell_of_def ejemplo_viento_def)
  note ok = proceso_ejemplo_viento
  have uw: "\<not> (\<exists>k \<in> set [''N'', ''NE'', ''E'', ''SE'', ''S'', ''SO'', ''O'', ''NO'', ''C''].
                 cell_of ejemplo_viento (rows ejemplo_viento ! 3) ''wind_direction'' = Some (Str k))"
    unfolding c by simp
  have us: "\<not> (\<exists>k \<in> set [''Nubes altas'', ''Cubierto'', ''Poco nuboso'', ''Nuboso'', ''Muy nuboso'',
                ''Despejado'', ''Cubierto con lluvia escasa'', ''Cubierto con lluvia'',
                ''Cubierto con tormenta y lluvia escasa''].
                 cell_of ejemplo_viento (rows ejemplo_viento ! 3) ''sky_condition'' = Some (Str k))"
    unfolding s by simp
  note th = translators_unknown_give_null [OF wf cw cs, THEN conjunct2, THEN conjunct2,
      THEN spec, THEN mp, OF conjI [OF cols conjI [OF labels ok]],
      THEN bspec, OF r, THEN bspec, OF r0, THEN mp, OF e]
  note w = th [THEN conjunct1, THEN mp, OF uw]
  note k = th [THEN conjunct2, THEN mp, OF us]
  show ?thesis
    by (rule conjI [OF wf conjI [OF cw conjI [OF cs conjI [OF cols conjI [OF labels conjI [OF ok conjI [OF r conjI [OF r0 conjI [OF e conjI [OF c conjI [OF s conjI [OF uw conjI [OF us conjI [OF w [THEN conjunct1] conjI [OF w [THEN conjunct2] k]]]]]]]]]]]]]]])
qed

section \<open>Properties of the pipeline\<close>



text \<open>
  Claim C2. The row of the specification's example is cleaned as the claim says: its
  date 18/02/2025 is read as the 18th of February. But the normalizer reads dates with
  \<open>dayfirst=False\<close>: a first field that can be a month is taken as the month, so the
  same row with the date 05/02/2025, which the collector writes for the 5th of
  February, comes out as the 2nd of May.
\<close>

theorem proceso_completo_limpieza_month_first:
  "proceso_completo_limpieza ejemplo_crudo = Inr ejemplo_limpio
   \<and> cell_of ejemplo_crudo (rows ejemplo_crudo ! 0) ''date'' = Some (Str ''18/02/2025'')
   \<and> cell_of ejemplo_limpio (rows ejemplo_limpio ! 0) ''datetime''
        = Some (Timestamp 2025 2 18 8 0)
   \<and> proceso_completo_limpieza ejemplo_dia_mes = Inr ejemplo_dia_mes_limpio
   \<and> cell_of ejemplo_dia_mes (rows ejemplo_dia_mes ! 0) ''date'' = Some (Str ''05/02/2025'')
   \<and> cell_of ejemplo_dia_mes_limpio (rows ejemplo_dia_mes_limpio ! 0) ''datetime''
        = Some (Timestamp 2025 5 2 8 0)"
proof -
  have a: "cell_of ejemplo_crudo (rows ejemplo_crudo ! 0) ''date'' = Some (Str ''18/02/2025'')"
    by (simp add: cell_of_def ejemplo_crudo_def)
  have b: "cell_of ejemplo_limpio (rows ejemplo_limpio ! 0) ''datetime''
        = Some (Timestamp 2025 2 18 8 0)"
    by (simp add: cell_of_def ejemplo_limpio_def)
  have c: "cell_of ejemplo_dia_mes (rows ejemplo_dia_mes ! 0) ''date'' = Some (Str ''05/02/2025'')"
    by (simp add: cell_of_def ejemplo_dia_mes_def)
  have d: "cell_of ejemplo_dia_mes_limpio (rows ejemplo_dia_mes_limpio ! 0) ''datetime''
        = Some (Timestamp 2025 5 2 8 0)"
    by (simp add: cell_of_def ejemplo_dia_mes_limpio_def)
  show ?thesis
    by (rule conjI [OF proceso_ejemplo_crudo conjI [OF a conjI [OF b conjI [OF proceso_ejemplo_dia_mes conjI [OF c d]]]]])
qed




end
